theory Spec2Isabelle
  imports Complex_Main "HOL-Library.Word" "HOL-Library.Multiset"
begin

section \<open>Binary floating point\<close>

text \<open>
  The game computes in \<open>float\<close> (IEEE 754 binary32) and reads a decimal literal as a
  \<open>double\<close> (binary64). A value of either type is the real number it represents, and an
  operation of the source is the exact operation followed by the rounding to the nearest
  value of the result type, ties to even: \<open>f32\<close> rounds to binary32 (24 bits of
  precision, least normal exponent \<open>-126\<close>) and \<open>f64\<close> to binary64 (53 bits, \<open>-1022\<close>).
  Below the least normal exponent the spacing is that of the subnormal numbers. Infinities
  and NaN are not represented; no operation below takes finite floats beyond the largest
  finite float. The widening of a \<open>float\<close> to a \<open>double\<close> is exact and is not written.
\<close>

text \<open>The integer nearest to \<open>y\<close>, the even one of two that are equally near.\<close>

definition round_even :: "real \<Rightarrow> int" where
  "round_even y =
     (let f = \<lfloor>y\<rfloor>; d = y - real_of_int f
      in if d < 1 / 2 then f else if 1 / 2 < d then f + 1 else if even f then f else f + 1)"

text \<open>
  The exponent \<open>e\<close> of a positive \<open>x\<close>, that is \<open>2 ^ e \<le> x < 2 ^ (e + 1)\<close>, found in at
  most \<open>n\<close> halvings or doublings. The exponents of the doubles lie between \<open>-1074\<close> and
  \<open>1023\<close>, so \<open>1200\<close> steps reach each of them.
\<close>

fun binade :: "nat \<Rightarrow> real \<Rightarrow> int" where
  "binade 0 x = 0"
| "binade (Suc n) x =
     (if 2 \<le> x then binade n (x / 2) + 1
      else if x < 1 then binade n (2 * x) - 1
      else 0)"

text \<open>
  Rounding to \<open>p\<close> bits of precision with least normal exponent \<open>emin\<close>: \<open>x\<close> is rounded to
  a multiple of the spacing \<open>u\<close> of the floats around it.
\<close>

definition fl :: "nat \<Rightarrow> int \<Rightarrow> real \<Rightarrow> real" where
  "fl p emin x =
     (let e = max (binade 1200 \<bar>x\<bar>) emin;
          u = 2 powi (e - int p + 1)
      in real_of_int (round_even (x / u)) * u)"

definition f32 :: "real \<Rightarrow> real" where
  "f32 x = fl 24 (- 126) x"

definition f64 :: "real \<Rightarrow> real" where
  "f64 x = fl 53 (- 1022) x"

section \<open>Vectors, boxes and meshes\<close>

text \<open>
  The vector classes and the mesh come from the graphics library the game is built on;
  their components are of type \<open>float\<close>. A \<open>size_t\<close> is a \<open>nat\<close> (the size limit of
  \<open>std::vector\<close> keeps \<open>24 * size\<close> and \<open>36 * size\<close> far below \<open>2 ^ 64\<close>), an \<open>int8_t\<close> is
  an \<open>8 word\<close> read with \<open>sint\<close>, and an index of the mesh (\<open>uint32_t\<close>) is a \<open>32 word\<close>.
\<close>

datatype vec2 = Vec2 (x2: real) (y2: real)

datatype vec3 = Vec3 (x3: real) (y3: real) (z3: real)

datatype vec4 = Vec4 (x4: real) (y4: real) (z4: real) (w4: real)

text \<open>
  \<open>uv *= s\<close> on a \<open>vec2\<close> with a \<open>float\<close> \<open>s\<close>, and the setters \<open>uv.x(v)\<close> and \<open>uv.y(v)\<close>.
\<close>

definition vec2_scale :: "vec2 \<Rightarrow> real \<Rightarrow> vec2" where
  "vec2_scale v s = Vec2 (f32 (x2 v * s)) (f32 (y2 v * s))"

definition vec2_set_x :: "vec2 \<Rightarrow> real \<Rightarrow> vec2" where
  "vec2_set_x v a = Vec2 a (y2 v)"

definition vec2_set_y :: "vec2 \<Rightarrow> real \<Rightarrow> vec2" where
  "vec2_set_y v a = Vec2 (x2 v) a"

text \<open>The difference and the sum of two \<open>vec3\<close>, component by component in \<open>float\<close>.\<close>

definition vec3_sub :: "vec3 \<Rightarrow> vec3 \<Rightarrow> vec3" where
  "vec3_sub a b = Vec3 (f32 (x3 a - x3 b)) (f32 (y3 a - y3 b)) (f32 (z3 a - z3 b))"

definition vec3_add :: "vec3 \<Rightarrow> vec3 \<Rightarrow> vec3" where
  "vec3_add a b = Vec3 (f32 (x3 a + x3 b)) (f32 (y3 a + y3 b)) (f32 (z3 a + z3 b))"

record aabbox =
  get_min :: vec3
  get_max :: vec3

record mesh =
  vertex :: "vec4 list"
  uv :: "vec2 list"
  normal :: "vec3 list"
  index :: "32 word list"

text \<open>
  \<open>v.resize(n)\<close> of \<open>std::vector\<close>: the first \<open>n\<close> elements are kept and the vector is
  padded with value-initialised elements \<open>d\<close>.
\<close>

definition resize :: "nat \<Rightarrow> 'a \<Rightarrow> 'a list \<Rightarrow> 'a list" where
  "resize n d xs = take n xs @ replicate (n - length xs) d"

text \<open>
  A run of assignments \<open>a[v++] = y\<close>, one for each element of \<open>ys\<close> in turn. The
  subscript of \<open>std::vector\<close> is unchecked; the callers below size the vector first, and a
  write past the end (undefined in the source) changes nothing here.
\<close>

fun store :: "nat \<Rightarrow> 'a list \<Rightarrow> 'a list \<Rightarrow> 'a list" where
  "store v [] xs = xs"
| "store v (y # ys) xs = store (Suc v) ys (xs[v := y])"

text \<open>The narrowing conversion of a \<open>size_t\<close> stored into a \<open>uint32_t\<close> index.\<close>

definition u32 :: "nat \<Rightarrow> 32 word" where
  "u32 n = word_of_nat n"

text \<open>
  \<open>static_cast<int8_t>\<close> of a \<open>float\<close>: the fraction is discarded. Outside the range of
  \<open>int8_t\<close> the conversion is undefined in the source; the model keeps the low eight bits.
\<close>

definition int8_of_float :: "real \<Rightarrow> 8 word" where
  "int8_of_float w = word_of_int (if 0 \<le> w then \<lfloor>w\<rfloor> else \<lceil>w\<rceil>)"

section \<open>The vertex type (terrain_vertex.h)\<close>

datatype error = Runtime_error string

text \<open>\<open>terrain_vertex::check\<close> of the triangle build: throws on arrays of different length.\<close>

definition check :: "mesh \<Rightarrow> error + unit" where
  "check m =
     (let vert_size = length (vertex m) in
      if length (uv m) \<noteq> vert_size \<or> length (normal m) \<noteq> vert_size
      then Inl (Runtime_error ''terrain_vertex: vertex, uv, or normals invalid length'')
      else Inr ())"

text \<open>\<open>terrain_vertex::check\<close> of the geometry-shader build: does nothing.\<close>

definition check_gs :: "mesh \<Rightarrow> error + unit" where
  "check_gs m = Inr ()"

section \<open>The vertex buffers\<close>

text \<open>
  \<open>min::vertex_buffer\<close> belongs to the graphics library and is opaque to the game. A buffer
  is represented by the calls the game has made on it, oldest first; \<open>Add_mesh\<close> carries
  the mesh as it was when it was added (\<open>terrain_vertex::copy\<close> copies the arrays into the
  buffer's own storage). \<open>add_mesh\<close> hands the mesh to the vertex type's \<open>check\<close> first,
  which is what \<open>terrain_vertex\<close> provides \<open>check\<close> for.
\<close>

datatype vb_call = Clear | Add_mesh mesh | Bind | Upload | Draw_all

type_synonym vertex_buffer = "vb_call list"

definition clear :: "vertex_buffer \<Rightarrow> vertex_buffer" where
  "clear vb = vb @ [Clear]"

definition add_mesh :: "mesh \<Rightarrow> vertex_buffer \<Rightarrow> error + vertex_buffer" where
  "add_mesh m vb = (case check m of Inl e \<Rightarrow> Inl e | Inr _ \<Rightarrow> Inr (vb @ [Add_mesh m]))"

definition bind :: "vertex_buffer \<Rightarrow> vertex_buffer" where
  "bind vb = vb @ [Bind]"

definition upload :: "vertex_buffer \<Rightarrow> vertex_buffer" where
  "upload vb = vb @ [Upload]"

definition draw_all :: "vertex_buffer \<Rightarrow> vertex_buffer" where
  "draw_all vb = vb @ [Draw_all]"

text \<open>The meshes a buffer holds: those added since it was last cleared.\<close>

fun staged :: "vertex_buffer \<Rightarrow> mesh list" where
  "staged [] = []"
| "staged (c # cs) =
     (if Clear \<in> set cs then staged cs
      else (case c of Add_mesh m \<Rightarrow> m # staged cs | _ \<Rightarrow> staged cs))"

text \<open>How often \<open>upload()\<close> has been called on a buffer.\<close>

definition uploads :: "vertex_buffer \<Rightarrow> nat" where
  "uploads vb = length (filter (\<lambda>c. case c of Upload \<Rightarrow> True | _ \<Rightarrow> False) vb)"

section \<open>The terrain (terrain.h)\<close>

record terrain =
  pb :: vertex_buffer
  gb :: vertex_buffer
  parent :: mesh
  cell_buffer :: "vec4 list"

subsection \<open>The geometry-shader build (\<open>USE_GS_RENDER\<close>)\<close>

text \<open>
  \<open>std::iota\<close> counts in an \<open>int\<close> from \<open>0\<close> and stores each value into a \<open>uint32_t\<close>. From
  \<open>2 ^ 31\<close> on the count overflows, which the source leaves undefined; the model wraps.
\<close>

definition generate_indices :: "mesh \<Rightarrow> mesh" where
  "generate_indices m = m\<lparr>index := map u32 [0..<length (vertex m)]\<rparr>"

subsection \<open>The triangle build\<close>

definition base_uvs :: "vec2 list" where
  "base_uvs =
    [Vec2 1.0 0.0, Vec2 0.0 1.0, Vec2 0.0 0.0,
     Vec2 1.0 0.0, Vec2 0.0 1.0, Vec2 0.0 0.0,
     Vec2 1.0 0.0, Vec2 0.0 1.0, Vec2 0.0 0.0,
     Vec2 1.0 0.0, Vec2 0.0 1.0, Vec2 0.0 0.0,
     Vec2 0.0 0.0, Vec2 1.0 1.0, Vec2 0.0 1.0,
     Vec2 1.0 0.0, Vec2 0.0 1.0, Vec2 0.0 0.0,
     Vec2 1.0 1.0, Vec2 1.0 1.0, Vec2 1.0 1.0,
     Vec2 1.0 1.0, Vec2 1.0 0.0, Vec2 1.0 1.0]"

text \<open>
  The loop body shared by the sixteen cases of the switch, with the case's two constants.
  The literal \<open>0.124\<close> is a \<open>double\<close> narrowed to the \<open>float\<close> that \<open>uv *= 0.124\<close> takes. In
  \<open>uv.x(uv.x() + dx)\<close> the sum is one of \<open>double\<close>, of the coordinate and the \<open>double\<close>
  literal \<open>dx\<close>, and the setter narrows it to \<open>float\<close>.
\<close>

definition atlas_slice :: "real \<Rightarrow> real \<Rightarrow> vec2 \<Rightarrow> vec2" where
  "atlas_slice dx dy uv0 =
     (let uv1 = vec2_scale uv0 (f32 (f64 0.124));
          uv2 = vec2_set_x uv1 (f32 (f64 (x2 uv1 + f64 dx)));
          uv3 = vec2_set_y uv2 (f32 (f64 (y2 uv2 + f64 dy)))
      in uv3)"

definition create_uvs :: "8 word \<Rightarrow> vec2 list" where
  "create_uvs atlas_id =
     (let uvs = base_uvs; a = sint atlas_id in
      if a = 0 then map (atlas_slice 0.001 0.876) uvs
      else if a = 1 then map (atlas_slice 0.126 0.876) uvs
      else if a = 2 then map (atlas_slice 0.251 0.876) uvs
      else if a = 3 then map (atlas_slice 0.376 0.876) uvs
      else if a = 4 then map (atlas_slice 0.501 0.876) uvs
      else if a = 5 then map (atlas_slice 0.626 0.876) uvs
      else if a = 6 then map (atlas_slice 0.751 0.876) uvs
      else if a = 7 then map (atlas_slice 0.876 0.876) uvs
      else if a = 8 then map (atlas_slice 0.001 0.751) uvs
      else if a = 9 then map (atlas_slice 0.126 0.751) uvs
      else if a = 10 then map (atlas_slice 0.251 0.751) uvs
      else if a = 11 then map (atlas_slice 0.376 0.751) uvs
      else if a = 12 then map (atlas_slice 0.501 0.751) uvs
      else if a = 13 then map (atlas_slice 0.626 0.751) uvs
      else if a = 14 then map (atlas_slice 0.751 0.751) uvs
      else if a = 15 then map (atlas_slice 0.876 0.751) uvs
      else uvs)"

definition create_box :: "vec3 \<Rightarrow> aabbox" where
  "create_box center =
     (let mn = vec3_sub center (Vec3 0.5 0.5 0.5);
          mx = vec3_add center (Vec3 0.5 0.5 0.5)
      in \<lparr>get_min = mn, get_max = mx\<rparr>)"

text \<open>The twenty-four vertices \<open>set_cell\<close> writes, in the order it writes them.\<close>

definition box_vertices :: "vec3 \<Rightarrow> vec3 \<Rightarrow> vec4 list" where
  "box_vertices mn mx =
    [Vec4 (x3 mn) (y3 mn) (z3 mn) 1.0,
     Vec4 (x3 mx) (y3 mn) (z3 mx) 1.0,
     Vec4 (x3 mn) (y3 mn) (z3 mx) 1.0,
     Vec4 (x3 mx) (y3 mx) (z3 mx) 1.0,
     Vec4 (x3 mn) (y3 mx) (z3 mn) 1.0,
     Vec4 (x3 mn) (y3 mx) (z3 mx) 1.0,
     Vec4 (x3 mn) (y3 mx) (z3 mx) 1.0,
     Vec4 (x3 mn) (y3 mn) (z3 mn) 1.0,
     Vec4 (x3 mn) (y3 mn) (z3 mx) 1.0,
     Vec4 (x3 mn) (y3 mx) (z3 mn) 1.0,
     Vec4 (x3 mx) (y3 mn) (z3 mn) 1.0,
     Vec4 (x3 mn) (y3 mn) (z3 mn) 1.0,
     Vec4 (x3 mx) (y3 mn) (z3 mn) 1.0,
     Vec4 (x3 mx) (y3 mx) (z3 mx) 1.0,
     Vec4 (x3 mx) (y3 mn) (z3 mx) 1.0,
     Vec4 (x3 mn) (y3 mn) (z3 mx) 1.0,
     Vec4 (x3 mx) (y3 mx) (z3 mx) 1.0,
     Vec4 (x3 mn) (y3 mx) (z3 mx) 1.0,
     Vec4 (x3 mx) (y3 mn) (z3 mn) 1.0,
     Vec4 (x3 mx) (y3 mx) (z3 mn) 1.0,
     Vec4 (x3 mn) (y3 mx) (z3 mn) 1.0,
     Vec4 (x3 mx) (y3 mx) (z3 mn) 1.0,
     Vec4 (x3 mx) (y3 mx) (z3 mn) 1.0,
     Vec4 (x3 mx) (y3 mn) (z3 mx) 1.0]"

text \<open>The thirty-six indices \<open>set_cell\<close> writes, in the order it writes them.\<close>

definition box_indices :: "nat \<Rightarrow> 32 word list" where
  "box_indices vertex_start =
    [u32 vertex_start, u32 (1 + vertex_start), u32 (2 + vertex_start),
     u32 (3 + vertex_start), u32 (4 + vertex_start), u32 (5 + vertex_start),
     u32 (6 + vertex_start), u32 (7 + vertex_start), u32 (8 + vertex_start),
     u32 (9 + vertex_start), u32 (10 + vertex_start), u32 (11 + vertex_start),
     u32 (12 + vertex_start), u32 (13 + vertex_start), u32 (14 + vertex_start),
     u32 (15 + vertex_start), u32 (16 + vertex_start), u32 (17 + vertex_start),
     u32 vertex_start, u32 (18 + vertex_start), u32 (1 + vertex_start),
     u32 (3 + vertex_start), u32 (19 + vertex_start), u32 (4 + vertex_start),
     u32 (6 + vertex_start), u32 (20 + vertex_start), u32 (7 + vertex_start),
     u32 (9 + vertex_start), u32 (21 + vertex_start), u32 (10 + vertex_start),
     u32 (12 + vertex_start), u32 (22 + vertex_start), u32 (13 + vertex_start),
     u32 (15 + vertex_start), u32 (23 + vertex_start), u32 (16 + vertex_start)]"

text \<open>The twenty-four normals \<open>set_cell\<close> writes, in the order it writes them.\<close>

definition box_normals :: "vec3 list" where
  "box_normals =
    [Vec3 0.0 (- 1.0) 0.0, Vec3 0.0 (- 1.0) 0.0, Vec3 0.0 (- 1.0) 0.0,
     Vec3 0.0 1.0 0.0, Vec3 0.0 1.0 0.0, Vec3 0.0 1.0 0.0,
     Vec3 (- 1.0) 0.0 0.0, Vec3 (- 1.0) 0.0 0.0, Vec3 (- 1.0) 0.0 0.0,
     Vec3 0.0 0.0 (- 1.0), Vec3 0.0 0.0 (- 1.0), Vec3 0.0 0.0 (- 1.0),
     Vec3 1.0 0.0 0.0, Vec3 1.0 0.0 0.0, Vec3 1.0 0.0 0.0,
     Vec3 0.0 0.0 1.0, Vec3 0.0 0.0 1.0, Vec3 0.0 0.0 1.0,
     Vec3 0.0 (- 1.0) 0.0,
     Vec3 0.0 1.0 0.0,
     Vec3 (- 1.0) 0.0 0.0,
     Vec3 0.0 0.0 (- 1.0),
     Vec3 1.0 0.0 0.0,
     Vec3 0.0 0.0 1.0]"

subsection \<open>The faces of a box\<close>

text \<open>
  The offsets \<open>set_cell\<close> adds to \<open>vertex_start\<close> in its thirty-six index assignments, in
  order: twelve triangles of three corners each.
\<close>

definition index_offsets :: "nat list" where
  "index_offsets =
    [0, 1, 2, 3, 4, 5, 6, 7, 8, 9, 10, 11, 12, 13, 14, 15, 16, 17,
     0, 18, 1, 3, 19, 4, 6, 20, 7, 9, 21, 10, 12, 22, 13, 15, 23, 16]"



text \<open>
  \<open>set_cell\<close> reads cell \<open>cell\<close> of the cell buffer (three coordinates and the atlas id in
  \<open>w\<close>) and writes its block of the parent mesh. It is called for \<open>cell\<close> below the size of
  the cell buffer only.
\<close>

definition set_cell :: "nat \<Rightarrow> terrain \<Rightarrow> terrain" where
  "set_cell cell t =
     (let unpack = cell_buffer t ! cell;
          vertex_start = 24 * cell;
          index_start = 36 * cell;
          p = Vec3 (x4 unpack) (y4 unpack) (z4 unpack);
          b = create_box p;
          atlas_id = int8_of_float (w4 unpack);
          uvs = create_uvs atlas_id;
          m = parent t
      in t\<lparr>parent := m\<lparr>
             vertex := store vertex_start (box_vertices (get_min b) (get_max b)) (vertex m),
             uv := store vertex_start uvs (uv m),
             index := store index_start (box_indices vertex_start) (index m),
             normal := store vertex_start box_normals (normal m)\<rparr>\<rparr>)"

text \<open>
  What \<open>set_cell\<close> computes from one cell of the cell buffer: its vertices and its texture
  coordinates.
\<close>

definition cell_vertices :: "vec4 \<Rightarrow> vec4 list" where
  "cell_vertices unpack =
     (let p = Vec3 (x4 unpack) (y4 unpack) (z4 unpack); b = create_box p
      in box_vertices (get_min b) (get_max b))"

definition cell_uvs :: "vec4 \<Rightarrow> vec2 list" where
  "cell_uvs unpack = create_uvs (int8_of_float (w4 unpack))"

text \<open>The mesh of a cell buffer, block after block.\<close>

definition compiled :: "vec4 list \<Rightarrow> mesh" where
  "compiled cells =
     \<lparr>vertex = concat (map cell_vertices cells),
      uv = concat (map cell_uvs cells),
      normal = concat (map (\<lambda>c. box_normals) cells),
      index = concat (map (\<lambda>i. box_indices (24 * i)) [0..<length cells])\<rparr>"

text \<open>
  The assignments of a pass one by one. Workers that run \<open>set_cell\<close> for different cells
  at the same time interleave their assignments to the four arrays of the parent mesh; the
  cell buffer is only read. \<open>cell_writes\<close> lists the assignments \<open>set_cell\<close> makes for one
  cell, in program order, and \<open>pass_writes\<close> those of all cells.
\<close>

datatype mesh_write =
  Vertex_write nat vec4 | Uv_write nat vec2 | Index_write nat "32 word" | Normal_write nat vec3

fun apply_write :: "mesh_write \<Rightarrow> mesh \<Rightarrow> mesh" where
  "apply_write (Vertex_write i v) m = m\<lparr>vertex := (vertex m)[i := v]\<rparr>"
| "apply_write (Uv_write i v) m = m\<lparr>uv := (uv m)[i := v]\<rparr>"
| "apply_write (Index_write i v) m = m\<lparr>index := (index m)[i := v]\<rparr>"
| "apply_write (Normal_write i v) m = m\<lparr>normal := (normal m)[i := v]\<rparr>"

fun writes_of :: "(nat \<Rightarrow> 'a \<Rightarrow> mesh_write) \<Rightarrow> nat \<Rightarrow> 'a list \<Rightarrow> mesh_write list" where
  "writes_of w v [] = []"
| "writes_of w v (y # ys) = w v y # writes_of w (Suc v) ys"

definition cell_writes :: "vec4 list \<Rightarrow> nat \<Rightarrow> mesh_write list" where
  "cell_writes cells cell =
     (let unpack = cells ! cell; vertex_start = 24 * cell; index_start = 36 * cell
      in writes_of Vertex_write vertex_start (cell_vertices unpack) @
         writes_of Uv_write vertex_start (cell_uvs unpack) @
         writes_of Index_write index_start (box_indices vertex_start) @
         writes_of Normal_write vertex_start box_normals)"

definition pass_writes :: "vec4 list \<Rightarrow> mesh_write list" where
  "pass_writes cells = concat (map (cell_writes cells) [0..<length cells])"

text \<open>The cells \<open>upload_geometry\<close> collects: those of the listed chunks, in order.\<close>

definition view_cells :: "nat list \<Rightarrow> (nat \<Rightarrow> mesh) \<Rightarrow> vec4 list" where
  "view_cells idx f = concat (map (\<lambda>i. vertex (f i)) idx)"

definition populate_cell_buffer :: "mesh \<Rightarrow> terrain \<Rightarrow> terrain" where
  "populate_cell_buffer child t = t\<lparr>cell_buffer := cell_buffer t @ vertex child\<rparr>"

definition allocate_mesh_buffer :: "terrain \<Rightarrow> terrain" where
  "allocate_mesh_buffer t =
     (let size = length (cell_buffer t);
          size24 = size * 24;
          size36 = size * 36;
          m = parent t
      in t\<lparr>parent := m\<lparr>
             vertex := resize size24 (Vec4 0 0 0 0) (vertex m),
             uv := resize size24 (Vec2 0 0) (uv m),
             normal := resize size24 (Vec3 0 0 0) (normal m),
             index := resize size36 0 (index m)\<rparr>\<rparr>)"

text \<open>
  Modelled from the spec: \<open>work_queue::worker.run(work, start, stop)\<close> (game/work_queue.h)
  is not among the sources. The spec has it split the range into sub-ranges, run \<open>work\<close>
  on every index of the range, in an order it does not fix, and return when all are done.
  The order is the parameter \<open>pool\<close>: \<open>pool start stop\<close> lists the indices in the order in
  which the calls of \<open>work\<close> take effect.
\<close>

definition worker_run ::
  "(nat \<Rightarrow> nat \<Rightarrow> nat list) \<Rightarrow> (nat \<Rightarrow> 's \<Rightarrow> 's) \<Rightarrow> nat \<Rightarrow> nat \<Rightarrow> 's \<Rightarrow> 's" where
  "worker_run pool work start stop s = fold work (pool start stop) s"

text \<open>A pool is fair on a range of \<open>n\<close> indices when it runs each of them exactly once.\<close>

definition fair_pool :: "(nat \<Rightarrow> nat \<Rightarrow> nat list) \<Rightarrow> nat \<Rightarrow> bool" where
  "fair_pool pool n = (mset (pool 0 n) = mset [0..<n])"

text \<open>The pool of a single worker: the indices in ascending order.\<close>

definition serial_pool :: "nat \<Rightarrow> nat \<Rightarrow> nat list" where
  "serial_pool a b = [a..<b]"

text \<open>A pool that runs the range backwards.\<close>

definition reverse_pool :: "nat \<Rightarrow> nat \<Rightarrow> nat list" where
  "reverse_pool a b = rev [a..<b]"

definition upload_geometry ::
  "(nat \<Rightarrow> nat \<Rightarrow> nat list) \<Rightarrow> nat list \<Rightarrow> (nat \<Rightarrow> mesh) \<Rightarrow> terrain \<Rightarrow> error + terrain" where
  "upload_geometry pool idx f t =
     (let t1 = t\<lparr>gb := clear (gb t)\<rparr>;
          t2 = t1\<lparr>cell_buffer := []\<rparr>;
          t3 = fold (\<lambda>i. populate_cell_buffer (f i)) idx t2;
          t4 = allocate_mesh_buffer t3;
          size = length (cell_buffer t4);
          t5 = worker_run pool set_cell 0 size t4
      in case (if length (vertex (parent t5)) > 0 then add_mesh (parent t5) (gb t5)
               else Inr (gb t5)) of
           Inl e \<Rightarrow> Inl e
         | Inr g \<Rightarrow> Inr (t5\<lparr>gb := upload (bind g)\<rparr>))"

definition upload_preview :: "mesh \<Rightarrow> terrain \<Rightarrow> error + terrain" where
  "upload_preview terr t =
     (let t1 = t\<lparr>pb := clear (pb t)\<rparr>;
          t2 = t1\<lparr>cell_buffer := []\<rparr>;
          t3 = populate_cell_buffer terr t2;
          t4 = allocate_mesh_buffer t3;
          size = length (cell_buffer t4);
          t5 = fold set_cell [0..<size] t4
      in case (if length (vertex (parent t5)) > 0 then add_mesh (parent t5) (pb t5)
               else Inr (pb t5)) of
           Inl e \<Rightarrow> Inl e
         | Inr g \<Rightarrow> Inr (t5\<lparr>pb := upload (bind g)\<rparr>))"

definition draw_placemark :: "terrain \<Rightarrow> terrain" where
  "draw_placemark t = t\<lparr>pb := draw_all (bind (pb t))\<rparr>"

definition draw_terrain :: "terrain \<Rightarrow> terrain" where
  "draw_terrain t = t\<lparr>gb := draw_all (bind (gb t))\<rparr>"

section \<open>The streaming trigger (world.h)\<close>

text \<open>
  Modelled from the spec: the grid \<open>cgrid\<close> (game/cgrid.h) is not among the sources. Of its
  state the model keeps the recent chunk key, read by \<open>get_recent_chunk\<close> and set by
  \<open>update_chunk\<close>; its queries are parameters: \<open>chunk_key\<close> maps a position to a key and
  to the flag it leaves in \<open>is_valid\<close>, \<open>get_view_chunks\<close> lists the keys around the recent
  chunk, and \<open>get_chunk\<close> gives the cells of a chunk.
\<close>

record cgrid =
  chunk_key :: "vec3 \<Rightarrow> nat \<times> bool"
  get_view_chunks :: "nat \<Rightarrow> nat list"
  get_chunk :: "nat \<Rightarrow> mesh"
  get_recent_chunk :: nat

definition update_chunk :: "nat \<Rightarrow> cgrid \<Rightarrow> cgrid" where
  "update_chunk key g = g\<lparr>get_recent_chunk := key\<rparr>"

record world =
  the_terrain :: terrain
  view_chunks :: "nat list"
  grid :: cgrid

definition generate_terrain :: "(nat \<Rightarrow> nat \<Rightarrow> nat list) \<Rightarrow> world \<Rightarrow> error + world" where
  "generate_terrain pool w =
     (let w1 = w\<lparr>view_chunks := get_view_chunks (grid w) (get_recent_chunk (grid w))\<rparr>;
          f = (\<lambda>key. get_chunk (grid w1) key)
      in case upload_geometry pool (view_chunks w1) f (the_terrain w1) of
           Inl e \<Rightarrow> Inl e
         | Inr t \<Rightarrow> Inr (w1\<lparr>the_terrain := t\<rparr>))"

text \<open>
  \<open>world::update\<close>, after the physics step has moved the player to \<open>p\<close>. The updates of
  the mobs, the particles and the camera uniforms that follow do not touch the terrain or
  the recent chunk and are left out.
\<close>

definition update :: "(nat \<Rightarrow> nat \<Rightarrow> nat list) \<Rightarrow> vec3 \<Rightarrow> world \<Rightarrow> error + world" where
  "update pool p w =
     (let (current_chunk, is_valid) = chunk_key (grid w) p;
          recent_chunk = get_recent_chunk (grid w)
      in if is_valid \<and> recent_chunk \<noteq> current_chunk
         then generate_terrain pool (w\<lparr>grid := update_chunk current_chunk (grid w)\<rparr>)
         else Inr w)"

section \<open>Example inputs\<close>

text \<open>A mesh with no data, and the terrain as its constructor leaves it.\<close>

definition empty_mesh :: mesh where
  "empty_mesh = \<lparr>vertex = [], uv = [], normal = [], index = []\<rparr>"

definition terrain0 :: terrain where
  "terrain0 = \<lparr>pb = [], gb = [], parent = empty_mesh, cell_buffer = []\<rparr>"

text \<open>Two cells: one at the origin with atlas id 0, one at \<open>(1, 2, 3)\<close> with atlas id 9.\<close>

definition two_cells :: "vec4 list" where
  "two_cells = [Vec4 0 0 0 0, Vec4 1 2 3 9]"



text \<open>A point mesh of three cells.\<close>

definition three_points :: mesh where
  "three_points = empty_mesh\<lparr>vertex := [Vec4 0 0 0 1, Vec4 1 0 0 1, Vec4 0 1 0 1]\<rparr>"

text \<open>A cell buffer whose last block of vertices crosses \<open>2 ^ 32\<close>.\<close>

definition many_cells :: "vec4 list" where
  "many_cells = replicate 178956971 (Vec4 0 0 0 0)"

text \<open>A point mesh with more than \<open>2 ^ 32\<close> vertices.\<close>

definition many_points :: mesh where
  "many_points = empty_mesh\<lparr>vertex := replicate 4294967297 (Vec4 0 0 0 1)\<rparr>"

text \<open>A chunk lookup whose chunks hold no cell, and one whose chunk \<open>key\<close> holds one cell.\<close>

definition no_chunks :: "nat \<Rightarrow> mesh" where
  "no_chunks key = empty_mesh"

definition cell_chunks :: "nat \<Rightarrow> mesh" where
  "cell_chunks key = empty_mesh\<lparr>vertex := [Vec4 (real key) 0 0 0]\<rparr>"

text \<open>A terrain that has uploaded before: its buffers, mesh and cell buffer hold old data.\<close>

definition used_terrain :: terrain where
  "used_terrain =
     \<lparr>pb = [Clear, Bind, Upload], gb = [Clear, Add_mesh (compiled two_cells), Bind, Upload],
      parent = three_points, cell_buffer = two_cells\<rparr>"

text \<open>A preview of two cells.\<close>

definition preview_mesh :: mesh where
  "preview_mesh = empty_mesh\<lparr>vertex := two_cells\<rparr>"

text \<open>
  A grid whose \<open>chunk_key\<close> reports the position as not valid, and a grid of chunks eight
  units wide along \<open>x\<close> that is valid from \<open>x = 0\<close> on. Both start in chunk \<open>0\<close>.
\<close>

definition outside_grid :: cgrid where
  "outside_grid =
     \<lparr>chunk_key = (\<lambda>p. (1, False)), get_view_chunks = (\<lambda>key. [key]),
      get_chunk = cell_chunks, get_recent_chunk = 0\<rparr>"

definition inside_grid :: cgrid where
  "inside_grid =
     \<lparr>chunk_key = (\<lambda>p. (nat \<lfloor>x3 p\<rfloor> div 8, 0 \<le> x3 p)), get_view_chunks = (\<lambda>key. [key, key + 1]),
      get_chunk = cell_chunks, get_recent_chunk = 0\<rparr>"

text \<open>The world around a grid, with a fresh terrain.\<close>

definition world_of :: "cgrid \<Rightarrow> world" where
  "world_of g = \<lparr>the_terrain = terrain0, view_chunks = [], grid = g\<rparr>"

section \<open>Rounding\<close>





lemma fl_0 [simp]: "fl p emin 0 = 0"
  by (simp add: fl_def Let_def round_even_def)





lemma f32_0 [simp]: "f32 0 = 0"
  by (simp add: f32_def)

lemma f64_0 [simp]: "f64 0 = 0"
  by (simp add: f64_def)

subsection \<open>The roundings of the atlas table\<close>





























































section \<open>The atlas table\<close>










text \<open>
  C10. For an atlas id outside \<open>[0, 15]\<close> no case of the switch applies: \<open>create_uvs\<close>
  returns the twenty-four base corners, whose coordinates are \<open>0\<close> or \<open>1\<close>, as they are,
  neither scaled nor offset.
\<close>

theorem create_uvs_outside:
  assumes "sint atlas_id < 0 \<or> 15 < sint atlas_id"
  shows "create_uvs atlas_id = base_uvs \<and>
         length base_uvs = 24 \<and>
         list_all (\<lambda>c. (x2 c = 0 \<or> x2 c = 1) \<and> (y2 c = 0 \<or> y2 c = 1)) base_uvs"
proof -
  have "create_uvs atlas_id = base_uvs"
    using assms unfolding create_uvs_def Let_def by auto
  moreover have "length base_uvs = 24"
    by (simp add: base_uvs_def)
  moreover have "list_all (\<lambda>c. (x2 c = 0 \<or> x2 c = 1) \<and> (y2 c = 0 \<or> y2 c = 1)) base_uvs"
    by (simp add: base_uvs_def)
  ultimately show ?thesis by simp
qed

theorem create_uvs_outside_witness:
  "(sint (- 1 :: 8 word) < 0 \<or> 15 < sint (- 1 :: 8 word)) \<and>
   create_uvs (- 1) = base_uvs \<and>
   (sint (16 :: 8 word) < 0 \<or> 15 < sint (16 :: 8 word)) \<and>
   create_uvs 16 = base_uvs"
  using create_uvs_outside [of "- 1"] create_uvs_outside [of 16] by simp

section \<open>Writing blocks into a sized array\<close>

lemma length_store [simp]: "length (store v ys xs) = length xs"
  by (induction ys arbitrary: v xs) simp_all

lemma nth_store:
  "j < length xs \<Longrightarrow>
   store v ys xs ! j = (if v \<le> j \<and> j < v + length ys then ys ! (j - v) else xs ! j)"
proof (induction ys arbitrary: v xs)
  case Nil
  then show ?case by auto
next
  case (Cons y ys)
  then show ?case
    by (auto simp add: nth_list_update nth_Cons' Suc_diff_le)
qed

lemma block_index:
  fixes k :: nat
  assumes "0 < k"
  shows "(k * c \<le> j \<and> j < k * c + k) = (j div k = c)"
proof
  assume "k * c \<le> j \<and> j < k * c + k"
  then show "j div k = c"
    by (intro div_nat_eqI) simp_all
next
  assume "j div k = c"
  then show "k * c \<le> j \<and> j < k * c + k"
    using assms dividend_less_times_div [of k j] by auto
qed

lemma nth_fold_store:
  assumes "\<forall>c \<in> set sched. k * c + k \<le> length xs" and "\<And>c. length (g c) = k"
    and "j < length xs" and "0 < k"
  shows "fold (\<lambda>c. store (k * c) (g c)) sched xs ! j =
           (if j div k \<in> set sched then g (j div k) ! (j mod k) else xs ! j)"
  using assms(1)
proof (induction sched rule: rev_induct)
  case Nil
  then show ?case by simp
next
  case (snoc c sched)
  have len: "length (fold (\<lambda>c. store (k * c) (g c)) sched xs) = length xs"
    by (induction sched rule: rev_induct) simp_all
  have "j - k * c = j mod k" if "j div k = c"
    using that by (metis add_diff_cancel_left' mult_div_mod_eq)
  with snoc show ?case
    using assms(2-) block_index [OF assms(4), of c j]
    by (auto simp add: nth_store len)
qed

lemma length_concat_blocks:
  "\<forall>x \<in> set xs. length (g x) = k \<Longrightarrow> length (concat (map g xs)) = k * length xs"
  by (induction xs) simp_all

lemma nth_concat_blocks:
  "\<forall>x \<in> set xs. length (g x) = k \<Longrightarrow> j < k * length xs \<Longrightarrow>
   concat (map g xs) ! j = g (xs ! (j div k)) ! (j mod k)"
proof (induction xs arbitrary: j)
  case Nil
  then show ?case by simp
next
  case (Cons x xs)
  show ?case
  proof (cases "j < k")
    case True
    with Cons.prems show ?thesis by (simp add: nth_append)
  next
    case False
    then have kj: "k \<le> j" by simp
    with Cons.prems have k0: "0 < k" by (cases k) auto
    from kj Cons.prems have "j - k < k * length xs" by auto
    with Cons have "concat (map g xs) ! (j - k) = g (xs ! ((j - k) div k)) ! ((j - k) mod k)"
      by simp
    moreover have "j div k = Suc ((j - k) div k)"
      using k0 kj by (simp add: le_div_geq)
    moreover have "j mod k = (j - k) mod k"
      using kj by (simp add: le_mod_geq)
    ultimately show ?thesis
      using Cons.prems False by (simp add: nth_append)
  qed
qed

section \<open>The compile pass\<close>

lemma length_box_vertices [simp]: "length (box_vertices mn mx) = 24"
  by (simp add: box_vertices_def)

lemma length_cell_vertices [simp]: "length (cell_vertices c) = 24"
  by (simp add: cell_vertices_def Let_def)

lemma length_create_uvs [simp]: "length (create_uvs a) = 24"
  by (simp add: create_uvs_def Let_def base_uvs_def)

lemma length_cell_uvs [simp]: "length (cell_uvs c) = 24"
  by (simp add: cell_uvs_def)

lemma length_box_normals [simp]: "length box_normals = 24"
  by (simp add: box_normals_def)

lemma length_box_indices [simp]: "length (box_indices v) = 36"
  by (simp add: box_indices_def)

lemma set_cell_frame [simp]:
  "cell_buffer (set_cell c t) = cell_buffer t"
  "gb (set_cell c t) = gb t"
  "pb (set_cell c t) = pb t"
  by (simp_all add: set_cell_def Let_def)

lemma set_cell_parent:
  "vertex (parent (set_cell c t)) = store (24 * c) (cell_vertices (cell_buffer t ! c)) (vertex (parent t))"
  "uv (parent (set_cell c t)) = store (24 * c) (cell_uvs (cell_buffer t ! c)) (uv (parent t))"
  "normal (parent (set_cell c t)) = store (24 * c) box_normals (normal (parent t))"
  "index (parent (set_cell c t)) = store (36 * c) (box_indices (24 * c)) (index (parent t))"
  by (simp_all add: set_cell_def Let_def cell_vertices_def cell_uvs_def)

lemma fold_set_cell_frame [simp]:
  "cell_buffer (fold set_cell sched t) = cell_buffer t"
  "gb (fold set_cell sched t) = gb t"
  "pb (fold set_cell sched t) = pb t"
  by (induction sched arbitrary: t) simp_all

lemma fold_set_cell_parent:
  "vertex (parent (fold set_cell sched t)) =
     fold (\<lambda>c. store (24 * c) (cell_vertices (cell_buffer t ! c))) sched (vertex (parent t))"
  "uv (parent (fold set_cell sched t)) =
     fold (\<lambda>c. store (24 * c) (cell_uvs (cell_buffer t ! c))) sched (uv (parent t))"
  "normal (parent (fold set_cell sched t)) =
     fold (\<lambda>c. store (24 * c) box_normals) sched (normal (parent t))"
  "index (parent (fold set_cell sched t)) =
     fold (\<lambda>c. store (36 * c) (box_indices (24 * c))) sched (index (parent t))"
  by (induction sched arbitrary: t; simp add: set_cell_parent)+

lemma length_resize [simp]: "length (resize n d xs) = n"
  by (simp add: resize_def)

lemma allocate_frame [simp]:
  "cell_buffer (allocate_mesh_buffer t) = cell_buffer t"
  "gb (allocate_mesh_buffer t) = gb t"
  "pb (allocate_mesh_buffer t) = pb t"
  by (simp_all add: allocate_mesh_buffer_def Let_def)

lemma allocate_lengths [simp]:
  "length (vertex (parent (allocate_mesh_buffer t))) = 24 * length (cell_buffer t)"
  "length (uv (parent (allocate_mesh_buffer t))) = 24 * length (cell_buffer t)"
  "length (normal (parent (allocate_mesh_buffer t))) = 24 * length (cell_buffer t)"
  "length (index (parent (allocate_mesh_buffer t))) = 36 * length (cell_buffer t)"
  by (simp_all add: allocate_mesh_buffer_def Let_def)

lemma length_fold_store [simp]:
  "length (fold (\<lambda>c. store (f c) (g c)) sched xs) = length xs"
  by (induction sched arbitrary: xs) simp_all

lemma fold_store_all:
  assumes "set sched = {0..<n}" and "\<And>c. length (g c) = k" and "length xs = k * n" and "0 < k"
  shows "fold (\<lambda>c. store (k * c) (g c)) sched xs = concat (map g [0..<n])"
proof (rule nth_equalityI)
  show "length (fold (\<lambda>c. store (k * c) (g c)) sched xs) = length (concat (map g [0..<n]))"
    using assms by (simp add: length_concat_blocks [where k = k])
next
  fix j
  assume "j < length (fold (\<lambda>c. store (k * c) (g c)) sched xs)"
  then have j: "j < k * n" using assms by simp
  then have d: "j div k < n"
    using assms(4) by (simp add: less_mult_imp_div_less mult.commute)
  have "\<forall>c \<in> set sched. k * c + k \<le> length xs"
  proof
    fix c assume "c \<in> set sched"
    then have "Suc c \<le> n" using assms(1) by simp
    then have "k * Suc c \<le> k * n" by (rule mult_le_mono2)
    then show "k * c + k \<le> length xs" using assms(3) by simp
  qed
  then have "fold (\<lambda>c. store (k * c) (g c)) sched xs ! j =
      (if j div k \<in> set sched then g (j div k) ! (j mod k) else xs ! j)"
    using assms j by (intro nth_fold_store) simp_all
  also have "\<dots> = g (j div k) ! (j mod k)"
    using d assms(1) by simp
  also have "\<dots> = concat (map g [0..<n]) ! j"
    using j d assms(2) by (simp add: nth_concat_blocks [where k = k])
  finally show "fold (\<lambda>c. store (k * c) (g c)) sched xs ! j = concat (map g [0..<n]) ! j" .
qed

lemma concat_map_nth:
  "concat (map (\<lambda>c. g (xs ! c)) [0..<length xs]) = concat (map g xs)"
proof -
  have "map (\<lambda>c. g (xs ! c)) [0..<length xs] = map g (map ((!) xs) [0..<length xs])"
    by simp
  then show ?thesis by (simp only: map_nth)
qed

lemma fold_set_cell_compiled:
  assumes "set sched = {0..<length (cell_buffer t)}"
  shows "parent (fold set_cell sched (allocate_mesh_buffer t)) = compiled (cell_buffer t)"
proof -
  let ?n = "length (cell_buffer t)"
  let ?t = "allocate_mesh_buffer t"
  have "fold (\<lambda>c. store (24 * c) (cell_vertices (cell_buffer t ! c))) sched (vertex (parent ?t)) =
      concat (map (\<lambda>c. cell_vertices (cell_buffer t ! c)) [0..<?n])"
    by (rule fold_store_all [where k = 24]) (use assms in simp_all)
  then have v: "vertex (parent (fold set_cell sched ?t)) = concat (map cell_vertices (cell_buffer t))"
    by (simp add: fold_set_cell_parent concat_map_nth)
  have "fold (\<lambda>c. store (24 * c) (cell_uvs (cell_buffer t ! c))) sched (uv (parent ?t)) =
      concat (map (\<lambda>c. cell_uvs (cell_buffer t ! c)) [0..<?n])"
    by (rule fold_store_all [where k = 24]) (use assms in simp_all)
  then have u: "uv (parent (fold set_cell sched ?t)) = concat (map cell_uvs (cell_buffer t))"
    by (simp add: fold_set_cell_parent concat_map_nth)
  have "fold (\<lambda>c. store (24 * c) box_normals) sched (normal (parent ?t)) =
      concat (map (\<lambda>c. box_normals) [0..<?n])"
    by (rule fold_store_all [where k = 24]) (use assms in simp_all)
  moreover have "concat (map (\<lambda>c. box_normals) [0..<?n]) =
      concat (map (\<lambda>c. box_normals) (cell_buffer t))"
    using concat_map_nth [of "\<lambda>c. box_normals" "cell_buffer t"] by simp
  ultimately have n: "normal (parent (fold set_cell sched ?t)) =
      concat (map (\<lambda>c. box_normals) (cell_buffer t))"
    by (simp add: fold_set_cell_parent)
  have "fold (\<lambda>c. store (36 * c) (box_indices (24 * c))) sched (index (parent ?t)) =
      concat (map (\<lambda>c. box_indices (24 * c)) [0..<?n])"
    by (rule fold_store_all [where k = 36]) (use assms in simp_all)
  then have i: "index (parent (fold set_cell sched ?t)) =
      concat (map (\<lambda>i. box_indices (24 * i)) [0..<?n])"
    by (simp add: fold_set_cell_parent)
  show ?thesis
    by (rule mesh.equality) (simp_all add: v u n i compiled_def)
qed

section \<open>The two uploads\<close>

lemma fair_pool_set: "fair_pool pool n \<Longrightarrow> set (pool 0 n) = {0..<n}"
  unfolding fair_pool_def by (metis mset_eq_setD set_upt)

lemma fair_serial_pool: "fair_pool serial_pool n"
  by (simp add: fair_pool_def serial_pool_def)

lemma fair_reverse_pool: "fair_pool reverse_pool n"
  by (simp add: fair_pool_def reverse_pool_def)

lemma compiled_lengths [simp]:
  "length (vertex (compiled cells)) = 24 * length cells"
  "length (uv (compiled cells)) = 24 * length cells"
  "length (normal (compiled cells)) = 24 * length cells"
  "length (index (compiled cells)) = 36 * length cells"
  by (simp_all add: compiled_def length_concat_blocks [where k = 24]
      length_concat_blocks [where k = 36])

lemma vertex_compiled_Nil [simp]: "(vertex (compiled cells) = []) = (cells = [])"
proof -
  have "(length (vertex (compiled cells)) = 0) = (length cells = 0)"
    by simp
  then show ?thesis by (simp only: length_0_conv)
qed

lemma check_compiled: "check (compiled cells) = Inr ()"
  by (simp add: check_def)

lemma add_mesh_compiled: "add_mesh (compiled cells) vb = Inr (vb @ [Add_mesh (compiled cells)])"
  by (simp add: add_mesh_def check_compiled)

lemma populate_fold:
  "fold (\<lambda>i. populate_cell_buffer (f i)) idx t =
     t\<lparr>cell_buffer := cell_buffer t @ view_cells idx f\<rparr>"
  by (induction idx arbitrary: t) (simp_all add: populate_cell_buffer_def view_cells_def)

lemma terrain_eqI:
  fixes s t :: terrain
  assumes "pb s = pb t" "gb s = gb t" "parent s = parent t" "cell_buffer s = cell_buffer t"
  shows "s = t"
  using assms by (intro terrain.equality) simp_all

lemma compile_pass:
  fixes t :: terrain
  assumes "set sched = {0..<length (cell_buffer t)}"
  shows "fold set_cell sched (allocate_mesh_buffer t) = t\<lparr>parent := compiled (cell_buffer t)\<rparr>"
  using assms by (intro terrain_eqI) (simp_all add: fold_set_cell_compiled)

lemma upload_geometry_eq:
  fixes t :: terrain
  assumes "fair_pool pool (length (view_cells idx f))"
  shows "upload_geometry pool idx f t =
    Inr (t\<lparr>gb := gb t @ [Clear] @
                (if view_cells idx f = [] then [] else [Add_mesh (compiled (view_cells idx f))]) @
                [Bind, Upload],
            parent := compiled (view_cells idx f),
            cell_buffer := view_cells idx f\<rparr>)"
proof -
  let ?cells = "view_cells idx f"
  let ?t3 = "t\<lparr>gb := gb t @ [Clear], cell_buffer := ?cells\<rparr>"
  let ?t5 = "?t3\<lparr>parent := compiled ?cells\<rparr>"
  have t3: "fold (\<lambda>i. populate_cell_buffer (f i)) idx
      (t\<lparr>gb := clear (gb t), cell_buffer := []\<rparr>) = ?t3"
    by (simp add: populate_fold clear_def)
  have "fold set_cell (pool 0 (length (cell_buffer ?t3))) (allocate_mesh_buffer ?t3) =
      ?t3\<lparr>parent := compiled (cell_buffer ?t3)\<rparr>"
    by (rule compile_pass) (simp add: fair_pool_set [OF assms])
  then have t5: "worker_run pool set_cell 0 (length (cell_buffer (allocate_mesh_buffer ?t3)))
      (allocate_mesh_buffer ?t3) = ?t5"
    by (simp add: worker_run_def)
  show ?thesis
    unfolding upload_geometry_def Let_def t3 t5
    by (simp add: add_mesh_compiled bind_def upload_def)
qed

lemma upload_preview_eq:
  fixes t :: terrain
  shows "upload_preview terr t =
    Inr (t\<lparr>pb := pb t @ [Clear] @
                (if vertex terr = [] then [] else [Add_mesh (compiled (vertex terr))]) @
                [Bind, Upload],
            parent := compiled (vertex terr),
            cell_buffer := vertex terr\<rparr>)"
proof -
  let ?cells = "vertex terr"
  let ?t3 = "t\<lparr>pb := pb t @ [Clear], cell_buffer := ?cells\<rparr>"
  let ?t5 = "?t3\<lparr>parent := compiled ?cells\<rparr>"
  have t3: "populate_cell_buffer terr (t\<lparr>pb := clear (pb t), cell_buffer := []\<rparr>) = ?t3"
    by (simp add: populate_cell_buffer_def clear_def)
  have "fold set_cell [0..<length (cell_buffer ?t3)] (allocate_mesh_buffer ?t3) =
      ?t3\<lparr>parent := compiled (cell_buffer ?t3)\<rparr>"
    by (rule compile_pass) simp
  then have t5: "fold set_cell [0..<length (cell_buffer (allocate_mesh_buffer ?t3))]
      (allocate_mesh_buffer ?t3) = ?t5"
    by simp
  show ?thesis
    unfolding upload_preview_def Let_def t3 t5
    by (simp add: add_mesh_compiled bind_def upload_def)
qed

lemma staged_after_clear: "Clear \<notin> set cs \<Longrightarrow> staged (vb @ Clear # cs) = staged cs"
  by (induction vb) simp_all

section \<open>The layout of the box mesh\<close>

lemma box_indices_offsets: "box_indices v = map (\<lambda>off. u32 (off + v)) index_offsets"
  by (simp add: box_indices_def index_offsets_def)

lemma index_offsets_bound: "k < 36 \<Longrightarrow> index_offsets ! k < 24"
proof -
  have "\<forall>off \<in> set index_offsets. off < 24"
    by (simp add: index_offsets_def)
  moreover have "length index_offsets = 36"
    by (simp add: index_offsets_def)
  ultimately show "k < 36 \<Longrightarrow> index_offsets ! k < 24"
    by simp
qed

lemma length_index_offsets [simp]: "length index_offsets = 36"
  by (simp add: index_offsets_def)

lemma unat_u32: "unat (u32 n) = n mod 2 ^ 32"
  by (simp add: u32_def unat_of_nat)

lemma index_compiled_nth:
  assumes "i < length cells" and "k < 36"
  shows "index (compiled cells) ! (36 * i + k) = u32 (index_offsets ! k + 24 * i)"
proof -
  have "36 * i + k < 36 * Suc i" using assms(2) by simp
  also have "\<dots> \<le> 36 * length cells" using assms(1) by simp
  finally have j: "36 * i + k < 36 * length [0..<length cells]" by simp
  have d: "(36 * i + k) div 36 = i" "(36 * i + k) mod 36 = k"
    using assms(2) by simp_all
  have "concat (map (\<lambda>i. box_indices (24 * i)) [0..<length cells]) ! (36 * i + k) =
      box_indices (24 * ([0..<length cells] ! ((36 * i + k) div 36))) ! ((36 * i + k) mod 36)"
    by (rule nth_concat_blocks [where k = 36]) (use j in simp_all)
  then show ?thesis
    using assms by (simp add: compiled_def d box_indices_offsets)
qed

text \<open>
  C1, as the code has it. A cell buffer of \<open>N\<close> cells compiles to \<open>24N\<close> vertices,
  texture coordinates and normals and to \<open>36N\<close> indices. The thirty-six indices of cell
  \<open>i\<close> are \<open>24i + off\<close> with \<open>off < 24\<close>, narrowed to 32 bits: they lie in the cell's own
  block \<open>[24i, 24i + 24)\<close> when the block ends at or below \<open>2 ^ 32\<close>, and every index is
  below \<open>24N\<close>. The pass is the one both uploads run: \<open>allocate_mesh_buffer\<close>, then
  \<open>set_cell\<close> for every cell, in some order.
\<close>

theorem box_mesh_layout:
  fixes t :: terrain
  assumes "set sched = {0..<length (cell_buffer t)}"
  shows "let N = length (cell_buffer t);
             m = parent (fold set_cell sched (allocate_mesh_buffer t))
         in length (vertex m) = 24 * N \<and> length (uv m) = 24 * N \<and>
            length (normal m) = 24 * N \<and> length (index m) = 36 * N \<and>
            (\<forall>i<N. \<forall>k<36. \<exists>off<24. unat (index m ! (36 * i + k)) = (24 * i + off) mod 2 ^ 32) \<and>
            (\<forall>i<N. 24 * i + 24 \<le> 2 ^ 32 \<longrightarrow>
               (\<forall>k<36. 24 * i \<le> unat (index m ! (36 * i + k)) \<and>
                        unat (index m ! (36 * i + k)) < 24 * i + 24)) \<and>
            (\<forall>j<36 * N. unat (index m ! j) < 24 * N)"
proof -
  let ?N = "length (cell_buffer t)"
  let ?m = "compiled (cell_buffer t)"
  have m: "parent (fold set_cell sched (allocate_mesh_buffer t)) = ?m"
    using assms by (rule fold_set_cell_compiled)
  have nth: "unat (index ?m ! (36 * i + k)) = (24 * i + index_offsets ! k) mod 2 ^ 32"
    if "i < ?N" "k < 36" for i k :: nat
  proof -
    have "index_offsets ! k + 24 * i = 24 * i + index_offsets ! k" by simp
    then show ?thesis
      using that by (simp only: index_compiled_nth unat_u32)
  qed
  have a: "\<forall>i<?N. \<forall>k<36. \<exists>off<24. unat (index ?m ! (36 * i + k)) = (24 * i + off) mod 2 ^ 32"
    using nth index_offsets_bound by blast
  have b: "\<forall>i<?N. 24 * i + 24 \<le> 2 ^ 32 \<longrightarrow>
      (\<forall>k<36. 24 * i \<le> unat (index ?m ! (36 * i + k)) \<and>
               unat (index ?m ! (36 * i + k)) < 24 * i + 24)"
  proof (intro allI impI)
    fix i k :: nat
    assume i: "i < ?N" and fit: "24 * i + 24 \<le> (2::nat) ^ 32" and k: "k < 36"
    have "24 * i + index_offsets ! k < 2 ^ 32"
      using fit index_offsets_bound [OF k] by simp
    then have "unat (index ?m ! (36 * i + k)) = 24 * i + index_offsets ! k"
      using nth [OF i k] by simp
    then show "24 * i \<le> unat (index ?m ! (36 * i + k)) \<and>
        unat (index ?m ! (36 * i + k)) < 24 * i + 24"
      using index_offsets_bound [OF k] by simp
  qed
  have c: "\<forall>j<36 * ?N. unat (index ?m ! j) < 24 * ?N"
  proof (intro allI impI)
    fix j :: nat
    assume j: "j < 36 * ?N"
    then have i: "j div 36 < ?N" by simp
    have k: "j mod 36 < 36" by simp
    have "unat (index ?m ! (36 * (j div 36) + j mod 36)) \<le> 24 * (j div 36) + index_offsets ! (j mod 36)"
      using nth [OF i k] by simp
    also have "\<dots> < 24 * Suc (j div 36)"
      using index_offsets_bound [OF k] by simp
    also have "\<dots> \<le> 24 * ?N"
      using i by simp
    finally show "unat (index ?m ! j) < 24 * ?N" by simp
  qed
  show ?thesis
    unfolding Let_def m using a b c by simp
qed

theorem box_mesh_layout_witness:
  "set (reverse_pool 0 2) = {0..<length (cell_buffer (terrain0\<lparr>cell_buffer := two_cells\<rparr>))} \<and>
   length (vertex (parent (fold set_cell (reverse_pool 0 2)
      (allocate_mesh_buffer (terrain0\<lparr>cell_buffer := two_cells\<rparr>))))) = 48 \<and>
   length (index (parent (fold set_cell (reverse_pool 0 2)
      (allocate_mesh_buffer (terrain0\<lparr>cell_buffer := two_cells\<rparr>))))) = 72 \<and>
   24 \<le> unat (index (parent (fold set_cell (reverse_pool 0 2)
      (allocate_mesh_buffer (terrain0\<lparr>cell_buffer := two_cells\<rparr>)))) ! 71) \<and>
   unat (index (parent (fold set_cell (reverse_pool 0 2)
      (allocate_mesh_buffer (terrain0\<lparr>cell_buffer := two_cells\<rparr>)))) ! 71) < 48"
proof -
  let ?t = "terrain0\<lparr>cell_buffer := two_cells\<rparr>"
  let ?m = "parent (fold set_cell (reverse_pool 0 2) (allocate_mesh_buffer ?t))"
  have len: "length (cell_buffer ?t) = 2"
    by (simp add: two_cells_def)
  have h: "set (reverse_pool 0 2) = {0..<length (cell_buffer ?t)}"
    unfolding len by (simp add: reverse_pool_def)
  note layout = box_mesh_layout [OF h, unfolded Let_def len]
  from layout have sizes: "length (vertex ?m) = 48" "length (index ?m) = 72"
    by simp_all
  from layout have "\<forall>i<2. 24 * i + 24 \<le> (2::nat) ^ 32 \<longrightarrow>
      (\<forall>k<36. 24 * i \<le> unat (index ?m ! (36 * i + k)) \<and>
               unat (index ?m ! (36 * i + k)) < 24 * i + 24)"
    by blast
  then have "\<forall>k<36. 24 * 1 \<le> unat (index ?m ! (36 * 1 + k)) \<and>
      unat (index ?m ! (36 * 1 + k)) < 24 * 1 + 24"
    by (elim allE [of _ 1]) simp
  then have "24 * 1 \<le> unat (index ?m ! (36 * 1 + 35)) \<and>
      unat (index ?m ! (36 * 1 + 35)) < 24 * 1 + 24"
    by (elim allE [of _ 35]) simp
  then have block: "24 \<le> unat (index ?m ! 71)" "unat (index ?m ! 71) < 48"
    by simp_all
  from h sizes block show ?thesis
    by (intro conjI)
qed

text \<open>
  With 178956971 cells the last block of vertices starts at \<open>2 ^ 32 - 16\<close>: the last index
  of the last cell, \<open>16 + vertex_start\<close>, is stored as \<open>0\<close>, outside the cell's block.
\<close>

theorem box_mesh_layout_counterexample:
  "178956970 < length (cell_buffer (terrain0\<lparr>cell_buffer := many_cells\<rparr>)) \<and>
   unat (index (parent (fold set_cell (serial_pool 0 178956971)
       (allocate_mesh_buffer (terrain0\<lparr>cell_buffer := many_cells\<rparr>)))) ! (36 * 178956970 + 35)) = 0 \<and>
   \<not> 24 * 178956970 \<le> unat (index (parent (fold set_cell (serial_pool 0 178956971)
       (allocate_mesh_buffer (terrain0\<lparr>cell_buffer := many_cells\<rparr>)))) ! (36 * 178956970 + 35))"
proof -
  let ?t = "terrain0\<lparr>cell_buffer := many_cells\<rparr>"
  have len: "length (cell_buffer ?t) = 178956971"
    by (simp add: many_cells_def)
  have s: "set (serial_pool 0 178956971) = {0..<length (cell_buffer ?t)}"
    by (simp only: serial_pool_def set_upt len)
  have m: "parent (fold set_cell (serial_pool 0 178956971) (allocate_mesh_buffer ?t)) =
      compiled (cell_buffer ?t)"
    by (rule fold_set_cell_compiled [OF s])
  have "index (compiled (cell_buffer ?t)) ! (36 * 178956970 + 35) =
      u32 (index_offsets ! 35 + 24 * 178956970)"
    by (rule index_compiled_nth) (simp_all add: many_cells_def)
  then have "unat (index (compiled (cell_buffer ?t)) ! (36 * 178956970 + 35)) = 0"
    by (simp add: unat_u32 index_offsets_def)
  then show ?thesis
    unfolding m using len by simp
qed

section \<open>The point mesh\<close>

text \<open>
  C8, as the code has it. In the point build \<open>generate_indices\<close> leaves the vertices, the
  texture coordinates and the normals of the mesh as they are and writes one index for
  each vertex: index \<open>i\<close> is \<open>i\<close> narrowed to 32 bits, which is \<open>i\<close> itself for
  \<open>i < 2 ^ 32\<close>.
\<close>

theorem generate_indices_identity:
  "vertex (generate_indices m) = vertex m \<and> uv (generate_indices m) = uv m \<and>
   normal (generate_indices m) = normal m \<and>
   length (index (generate_indices m)) = length (vertex m) \<and>
   (\<forall>i<length (vertex m). unat (index (generate_indices m) ! i) = i mod 2 ^ 32) \<and>
   (\<forall>i<length (vertex m). i < 2 ^ 32 \<longrightarrow> unat (index (generate_indices m) ! i) = i)"
  by (simp add: generate_indices_def unat_u32)

theorem generate_indices_identity_witness:
  "length (index (generate_indices three_points)) = 3 \<and>
   2 < length (vertex three_points) \<and>
   unat (index (generate_indices three_points) ! 2) = 2 \<and>
   uv (generate_indices three_points) = []"
proof -
  have len: "length (vertex three_points) = 3"
    by (simp add: three_points_def empty_mesh_def)
  note ident = generate_indices_identity [of three_points, unfolded len]
  from ident have "\<forall>i<3. i < 2 ^ 32 \<longrightarrow> unat (index (generate_indices three_points) ! i) = i"
    by blast
  then have "unat (index (generate_indices three_points) ! 2) = 2"
    by (elim allE [of _ 2]) simp
  moreover from ident have "length (index (generate_indices three_points)) = 3"
    by blast
  moreover from ident have "uv (generate_indices three_points) = []"
    by (simp add: three_points_def empty_mesh_def)
  ultimately show ?thesis
    using len by simp
qed

text \<open>
  A 32-bit index cannot be \<open>2 ^ 32\<close>: in a mesh of \<open>2 ^ 32 + 1\<close> points the last index is
  not its position.
\<close>

theorem generate_indices_identity_counterexample:
  "4294967296 < length (vertex many_points) \<and>
   unat (index (generate_indices many_points) ! 4294967296) = 0 \<and>
   unat (index (generate_indices many_points) ! 4294967296) \<noteq> 4294967296"
proof -
  have len: "length (vertex many_points) = 4294967297"
    by (simp add: many_points_def)
  have "index (generate_indices many_points) ! 4294967296 = u32 4294967296"
    unfolding generate_indices_def using len by simp
  then show ?thesis
    using len by (simp add: unat_u32)
qed

section \<open>The geometry of a cell\<close>















subsection \<open>Roundings of box coordinates\<close>














section \<open>The assignments of a pass in any order\<close>

lemma fold_vertex_writes:
  "vertex (fold apply_write (writes_of Vertex_write v ys) m) = store v ys (vertex m)"
  "uv (fold apply_write (writes_of Vertex_write v ys) m) = uv m"
  "index (fold apply_write (writes_of Vertex_write v ys) m) = index m"
  "normal (fold apply_write (writes_of Vertex_write v ys) m) = normal m"
  by (induction ys arbitrary: v m; simp)+

lemma fold_uv_writes:
  "vertex (fold apply_write (writes_of Uv_write v ys) m) = vertex m"
  "uv (fold apply_write (writes_of Uv_write v ys) m) = store v ys (uv m)"
  "index (fold apply_write (writes_of Uv_write v ys) m) = index m"
  "normal (fold apply_write (writes_of Uv_write v ys) m) = normal m"
  by (induction ys arbitrary: v m; simp)+

lemma fold_index_writes:
  "vertex (fold apply_write (writes_of Index_write v ys) m) = vertex m"
  "uv (fold apply_write (writes_of Index_write v ys) m) = uv m"
  "index (fold apply_write (writes_of Index_write v ys) m) = store v ys (index m)"
  "normal (fold apply_write (writes_of Index_write v ys) m) = normal m"
  by (induction ys arbitrary: v m; simp)+

lemma fold_normal_writes:
  "vertex (fold apply_write (writes_of Normal_write v ys) m) = vertex m"
  "uv (fold apply_write (writes_of Normal_write v ys) m) = uv m"
  "index (fold apply_write (writes_of Normal_write v ys) m) = index m"
  "normal (fold apply_write (writes_of Normal_write v ys) m) = store v ys (normal m)"
  by (induction ys arbitrary: v m; simp)+

lemma set_cell_writes:
  fixes t :: terrain
  shows "parent (set_cell cell t) = fold apply_write (cell_writes (cell_buffer t) cell) (parent t)"
  by (rule mesh.equality)
    (simp_all add: set_cell_parent cell_writes_def Let_def
      fold_vertex_writes fold_uv_writes fold_index_writes fold_normal_writes)

lemma length_apply_write [simp]:
  "length (vertex (apply_write w m)) = length (vertex m)"
  "length (uv (apply_write w m)) = length (uv m)"
  "length (index (apply_write w m)) = length (index m)"
  "length (normal (apply_write w m)) = length (normal m)"
  by (cases w; simp)+

lemma length_fold_write [simp]:
  "length (vertex (fold apply_write ws m)) = length (vertex m)"
  "length (uv (fold apply_write ws m)) = length (uv m)"
  "length (index (fold apply_write ws m)) = length (index m)"
  "length (normal (fold apply_write ws m)) = length (normal m)"
  by (induction ws arbitrary: m; simp)+

lemma vertex_fold_write:
  assumes "j < length (vertex m)" and "Vertex_write j v \<in> set ws"
    and "\<forall>v'. Vertex_write j v' \<in> set ws \<longrightarrow> v' = v"
  shows "vertex (fold apply_write ws m) ! j = v"
  using assms(2,3)
proof (induction ws rule: rev_induct)
  case Nil
  then show ?case by simp
next
  case (snoc w ws)
  from snoc.prems(2) have uniq: "\<forall>v'. Vertex_write j v' \<in> set ws \<longrightarrow> v' = v"
    by auto
  show ?case
  proof (cases "Vertex_write j v \<in> set ws")
    case True
    with snoc.IH uniq have ih: "vertex (fold apply_write ws m) ! j = v"
      by blast
    show ?thesis
    proof (cases w)
      case (Vertex_write i u)
      show ?thesis
      proof (cases "i = j")
        case True
        from snoc.prems(2) have "w = Vertex_write j u \<longrightarrow> u = v"
          by auto
        with True Vertex_write have "u = v"
          by blast
        with True Vertex_write assms(1) show ?thesis
          by simp
      next
        case False
        with Vertex_write ih show ?thesis
          by simp
      qed
    qed (use ih in simp_all)
  next
    case False
    with snoc.prems(1) have "w = Vertex_write j v"
      by simp
    with assms(1) show ?thesis
      by simp
  qed
qed

lemma uv_fold_write:
  assumes "j < length (uv m)" and "Uv_write j v \<in> set ws"
    and "\<forall>v'. Uv_write j v' \<in> set ws \<longrightarrow> v' = v"
  shows "uv (fold apply_write ws m) ! j = v"
  using assms(2,3)
proof (induction ws rule: rev_induct)
  case Nil
  then show ?case by simp
next
  case (snoc w ws)
  from snoc.prems(2) have uniq: "\<forall>v'. Uv_write j v' \<in> set ws \<longrightarrow> v' = v"
    by auto
  show ?case
  proof (cases "Uv_write j v \<in> set ws")
    case True
    with snoc.IH uniq have ih: "uv (fold apply_write ws m) ! j = v"
      by blast
    show ?thesis
    proof (cases w)
      case (Uv_write i u)
      show ?thesis
      proof (cases "i = j")
        case True
        from snoc.prems(2) have "w = Uv_write j u \<longrightarrow> u = v"
          by auto
        with True Uv_write have "u = v"
          by blast
        with True Uv_write assms(1) show ?thesis
          by simp
      next
        case False
        with Uv_write ih show ?thesis
          by simp
      qed
    qed (use ih in simp_all)
  next
    case False
    with snoc.prems(1) have "w = Uv_write j v"
      by simp
    with assms(1) show ?thesis
      by simp
  qed
qed

lemma index_fold_write:
  assumes "j < length (index m)" and "Index_write j v \<in> set ws"
    and "\<forall>v'. Index_write j v' \<in> set ws \<longrightarrow> v' = v"
  shows "index (fold apply_write ws m) ! j = v"
  using assms(2,3)
proof (induction ws rule: rev_induct)
  case Nil
  then show ?case by simp
next
  case (snoc w ws)
  from snoc.prems(2) have uniq: "\<forall>v'. Index_write j v' \<in> set ws \<longrightarrow> v' = v"
    by auto
  show ?case
  proof (cases "Index_write j v \<in> set ws")
    case True
    with snoc.IH uniq have ih: "index (fold apply_write ws m) ! j = v"
      by blast
    show ?thesis
    proof (cases w)
      case (Index_write i u)
      show ?thesis
      proof (cases "i = j")
        case True
        from snoc.prems(2) have "w = Index_write j u \<longrightarrow> u = v"
          by auto
        with True Index_write have "u = v"
          by blast
        with True Index_write assms(1) show ?thesis
          by simp
      next
        case False
        with Index_write ih show ?thesis
          by simp
      qed
    qed (use ih in simp_all)
  next
    case False
    with snoc.prems(1) have "w = Index_write j v"
      by simp
    with assms(1) show ?thesis
      by simp
  qed
qed

lemma normal_fold_write:
  assumes "j < length (normal m)" and "Normal_write j v \<in> set ws"
    and "\<forall>v'. Normal_write j v' \<in> set ws \<longrightarrow> v' = v"
  shows "normal (fold apply_write ws m) ! j = v"
  using assms(2,3)
proof (induction ws rule: rev_induct)
  case Nil
  then show ?case by simp
next
  case (snoc w ws)
  from snoc.prems(2) have uniq: "\<forall>v'. Normal_write j v' \<in> set ws \<longrightarrow> v' = v"
    by auto
  show ?case
  proof (cases "Normal_write j v \<in> set ws")
    case True
    with snoc.IH uniq have ih: "normal (fold apply_write ws m) ! j = v"
      by blast
    show ?thesis
    proof (cases w)
      case (Normal_write i u)
      show ?thesis
      proof (cases "i = j")
        case True
        from snoc.prems(2) have "w = Normal_write j u \<longrightarrow> u = v"
          by auto
        with True Normal_write have "u = v"
          by blast
        with True Normal_write assms(1) show ?thesis
          by simp
      next
        case False
        with Normal_write ih show ?thesis
          by simp
      qed
    qed (use ih in simp_all)
  next
    case False
    with snoc.prems(1) have "w = Normal_write j v"
      by simp
    with assms(1) show ?thesis
      by simp
  qed
qed

lemma set_writes_of:
  "set (writes_of w start ys) = (\<lambda>k. w (start + k) (ys ! k)) ` {..<length ys}"
proof (induction ys arbitrary: start)
  case Nil
  then show ?case by simp
next
  case (Cons y ys)
  have "{..<Suc (length ys)} = insert 0 (Suc ` {..<length ys})"
    by (auto simp add: lessThan_Suc_eq_insert_0)
  then show ?case
    using Cons by (simp add: image_image)
qed

lemma write_in_cell:
  "Vertex_write j v \<in> set (cell_writes cells c) \<longleftrightarrow>
     (\<exists>k<24. j = 24 * c + k \<and> v = cell_vertices (cells ! c) ! k)"
  "Uv_write j u \<in> set (cell_writes cells c) \<longleftrightarrow>
     (\<exists>k<24. j = 24 * c + k \<and> u = cell_uvs (cells ! c) ! k)"
  "Index_write j i \<in> set (cell_writes cells c) \<longleftrightarrow>
     (\<exists>k<36. j = 36 * c + k \<and> i = box_indices (24 * c) ! k)"
  "Normal_write j n \<in> set (cell_writes cells c) \<longleftrightarrow>
     (\<exists>k<24. j = 24 * c + k \<and> n = box_normals ! k)"
  by (auto simp add: cell_writes_def Let_def set_writes_of)

lemma write_in_pass:
  "Vertex_write j v \<in> set (pass_writes cells) \<longleftrightarrow>
     (\<exists>c<length cells. \<exists>k<24. j = 24 * c + k \<and> v = cell_vertices (cells ! c) ! k)"
  "Uv_write j u \<in> set (pass_writes cells) \<longleftrightarrow>
     (\<exists>c<length cells. \<exists>k<24. j = 24 * c + k \<and> u = cell_uvs (cells ! c) ! k)"
  "Index_write j i \<in> set (pass_writes cells) \<longleftrightarrow>
     (\<exists>c<length cells. \<exists>k<36. j = 36 * c + k \<and> i = box_indices (24 * c) ! k)"
  "Normal_write j n \<in> set (pass_writes cells) \<longleftrightarrow>
     (\<exists>c<length cells. \<exists>k<24. j = 24 * c + k \<and> n = box_normals ! k)"
  by (auto simp add: pass_writes_def write_in_cell)

lemma pass_write_at:
  fixes j :: nat
  shows "j < 24 * length cells \<Longrightarrow>
      Vertex_write j (cell_vertices (cells ! (j div 24)) ! (j mod 24)) \<in> set (pass_writes cells)"
    and "j < 24 * length cells \<Longrightarrow>
      Uv_write j (cell_uvs (cells ! (j div 24)) ! (j mod 24)) \<in> set (pass_writes cells)"
    and "j < 36 * length cells \<Longrightarrow>
      Index_write j (box_indices (24 * (j div 36)) ! (j mod 36)) \<in> set (pass_writes cells)"
    and "j < 24 * length cells \<Longrightarrow>
      Normal_write j (box_normals ! (j mod 24)) \<in> set (pass_writes cells)"
proof -
  have a: "j < 24 * n \<Longrightarrow> j div 24 < n \<and> j mod 24 < 24 \<and> j = 24 * (j div 24) + j mod 24" for n
    by simp
  have b: "j < 36 * n \<Longrightarrow> j div 36 < n \<and> j mod 36 < 36 \<and> j = 36 * (j div 36) + j mod 36" for n
    by simp
  show "j < 24 * length cells \<Longrightarrow>
      Vertex_write j (cell_vertices (cells ! (j div 24)) ! (j mod 24)) \<in> set (pass_writes cells)"
    unfolding write_in_pass using a by blast
  show "j < 24 * length cells \<Longrightarrow>
      Uv_write j (cell_uvs (cells ! (j div 24)) ! (j mod 24)) \<in> set (pass_writes cells)"
    unfolding write_in_pass using a by blast
  show "j < 36 * length cells \<Longrightarrow>
      Index_write j (box_indices (24 * (j div 36)) ! (j mod 36)) \<in> set (pass_writes cells)"
    unfolding write_in_pass using b by blast
  show "j < 24 * length cells \<Longrightarrow>
      Normal_write j (box_normals ! (j mod 24)) \<in> set (pass_writes cells)"
    unfolding write_in_pass using a by blast
qed

lemma pass_write_unique:
  "Vertex_write j v \<in> set (pass_writes cells) \<Longrightarrow>
     v = cell_vertices (cells ! (j div 24)) ! (j mod 24)"
  "Uv_write j u \<in> set (pass_writes cells) \<Longrightarrow>
     u = cell_uvs (cells ! (j div 24)) ! (j mod 24)"
  "Index_write j i \<in> set (pass_writes cells) \<Longrightarrow>
     i = box_indices (24 * (j div 36)) ! (j mod 36)"
  "Normal_write j n \<in> set (pass_writes cells) \<Longrightarrow> n = box_normals ! (j mod 24)"
proof -
  assume "Vertex_write j v \<in> set (pass_writes cells)"
  then obtain c k where "k < 24" "j = 24 * c + k" "v = cell_vertices (cells ! c) ! k"
    unfolding write_in_pass by blast
  then show "v = cell_vertices (cells ! (j div 24)) ! (j mod 24)"
    by simp
next
  assume "Uv_write j u \<in> set (pass_writes cells)"
  then obtain c k where "k < 24" "j = 24 * c + k" "u = cell_uvs (cells ! c) ! k"
    unfolding write_in_pass by blast
  then show "u = cell_uvs (cells ! (j div 24)) ! (j mod 24)"
    by simp
next
  assume "Index_write j i \<in> set (pass_writes cells)"
  then obtain c k where "k < 36" "j = 36 * c + k" "i = box_indices (24 * c) ! k"
    unfolding write_in_pass by blast
  then show "i = box_indices (24 * (j div 36)) ! (j mod 36)"
    by simp
next
  assume "Normal_write j n \<in> set (pass_writes cells)"
  then obtain c k where "k < 24" "j = 24 * c + k" "n = box_normals ! k"
    unfolding write_in_pass by blast
  then show "n = box_normals ! (j mod 24)"
    by simp
qed

lemma compiled_nth:
  fixes j :: nat
  shows "j < 24 * length cells \<Longrightarrow>
      vertex (compiled cells) ! j = cell_vertices (cells ! (j div 24)) ! (j mod 24)"
    and "j < 24 * length cells \<Longrightarrow>
      uv (compiled cells) ! j = cell_uvs (cells ! (j div 24)) ! (j mod 24)"
    and "j < 36 * length cells \<Longrightarrow>
      index (compiled cells) ! j = box_indices (24 * (j div 36)) ! (j mod 36)"
    and "j < 24 * length cells \<Longrightarrow> normal (compiled cells) ! j = box_normals ! (j mod 24)"
proof -
  show "j < 24 * length cells \<Longrightarrow>
      vertex (compiled cells) ! j = cell_vertices (cells ! (j div 24)) ! (j mod 24)"
    by (simp add: compiled_def nth_concat_blocks [where k = 24])
  show "j < 24 * length cells \<Longrightarrow>
      uv (compiled cells) ! j = cell_uvs (cells ! (j div 24)) ! (j mod 24)"
    by (simp add: compiled_def nth_concat_blocks [where k = 24])
  show "j < 24 * length cells \<Longrightarrow> normal (compiled cells) ! j = box_normals ! (j mod 24)"
    by (simp add: compiled_def nth_concat_blocks [where k = 24])
  assume j: "j < 36 * length cells"
  then have "concat (map (\<lambda>i. box_indices (24 * i)) [0..<length cells]) ! j =
      box_indices (24 * ([0..<length cells] ! (j div 36))) ! (j mod 36)"
    by (intro nth_concat_blocks [where k = 36]) simp_all
  with j show "index (compiled cells) ! j = box_indices (24 * (j div 36)) ! (j mod 36)"
    by (simp add: compiled_def)
qed

lemma pass_any_order:
  assumes "set ws = set (pass_writes cells)"
    and "length (vertex m) = 24 * length cells" and "length (uv m) = 24 * length cells"
    and "length (normal m) = 24 * length cells" and "length (index m) = 36 * length cells"
  shows "fold apply_write ws m = compiled cells"
proof (rule mesh.equality)
  show "vertex (fold apply_write ws m) = vertex (compiled cells)"
  proof (rule nth_equalityI)
    fix j assume "j < length (vertex (fold apply_write ws m))"
    then have j: "j < 24 * length cells" using assms(2) by simp
    let ?v = "cell_vertices (cells ! (j div 24)) ! (j mod 24)"
    have len: "j < length (vertex m)" using j assms(2) by simp
    have there: "Vertex_write j ?v \<in> set ws"
      unfolding assms(1) using j by (rule pass_write_at)
    have only: "\<forall>v'. Vertex_write j v' \<in> set ws \<longrightarrow> v' = ?v"
      unfolding assms(1) using pass_write_unique(1) by blast
    have "vertex (fold apply_write ws m) ! j = ?v"
      using len there only by (rule vertex_fold_write)
    also have "\<dots> = vertex (compiled cells) ! j"
      using j by (simp only: compiled_nth)
    finally show "vertex (fold apply_write ws m) ! j = vertex (compiled cells) ! j" .
  qed (simp add: assms)
  show "uv (fold apply_write ws m) = uv (compiled cells)"
  proof (rule nth_equalityI)
    fix j assume "j < length (uv (fold apply_write ws m))"
    then have j: "j < 24 * length cells" using assms(3) by simp
    let ?v = "cell_uvs (cells ! (j div 24)) ! (j mod 24)"
    have len: "j < length (uv m)" using j assms(3) by simp
    have there: "Uv_write j ?v \<in> set ws"
      unfolding assms(1) using j by (rule pass_write_at)
    have only: "\<forall>v'. Uv_write j v' \<in> set ws \<longrightarrow> v' = ?v"
      unfolding assms(1) using pass_write_unique(2) by blast
    have "uv (fold apply_write ws m) ! j = ?v"
      using len there only by (rule uv_fold_write)
    also have "\<dots> = uv (compiled cells) ! j"
      using j by (simp only: compiled_nth)
    finally show "uv (fold apply_write ws m) ! j = uv (compiled cells) ! j" .
  qed (simp add: assms)
  show "normal (fold apply_write ws m) = normal (compiled cells)"
  proof (rule nth_equalityI)
    fix j assume "j < length (normal (fold apply_write ws m))"
    then have j: "j < 24 * length cells" using assms(4) by simp
    let ?v = "box_normals ! (j mod 24)"
    have len: "j < length (normal m)" using j assms(4) by simp
    have there: "Normal_write j ?v \<in> set ws"
      unfolding assms(1) using j by (rule pass_write_at)
    have only: "\<forall>v'. Normal_write j v' \<in> set ws \<longrightarrow> v' = ?v"
      unfolding assms(1) using pass_write_unique(4) by blast
    have "normal (fold apply_write ws m) ! j = ?v"
      using len there only by (rule normal_fold_write)
    also have "\<dots> = normal (compiled cells) ! j"
      using j by (simp only: compiled_nth)
    finally show "normal (fold apply_write ws m) ! j = normal (compiled cells) ! j" .
  qed (simp add: assms)
  show "index (fold apply_write ws m) = index (compiled cells)"
  proof (rule nth_equalityI)
    fix j assume "j < length (index (fold apply_write ws m))"
    then have j: "j < 36 * length cells" using assms(5) by simp
    let ?v = "box_indices (24 * (j div 36)) ! (j mod 36)"
    have len: "j < length (index m)" using j assms(5) by simp
    have there: "Index_write j ?v \<in> set ws"
      unfolding assms(1) using j by (rule pass_write_at)
    have only: "\<forall>v'. Index_write j v' \<in> set ws \<longrightarrow> v' = ?v"
      unfolding assms(1) using pass_write_unique(3) by blast
    have "index (fold apply_write ws m) ! j = ?v"
      using len there only by (rule index_fold_write)
    also have "\<dots> = index (compiled cells) ! j"
      using j by (simp only: compiled_nth)
    finally show "index (fold apply_write ws m) ! j = index (compiled cells) ! j" .
  qed (simp add: assms)
  show "mesh.more (fold apply_write ws m) = mesh.more (compiled cells)"
    by simp
qed

section \<open>Validation\<close>

text \<open>
  \<open>check\<close> throws exactly when the arrays of texture coordinates or normals differ in
  length from the vertices. The two uploads size the three arrays alike before they add
  the mesh, so neither of them throws, whatever the chunks and the state before.
\<close>

lemma check_mismatch:
  assumes "length (uv m) \<noteq> length (vertex m) \<or> length (normal m) \<noteq> length (vertex m)"
  shows "check m = Inl (Runtime_error ''terrain_vertex: vertex, uv, or normals invalid length'')"
  using assms by (auto simp add: check_def)

lemma check_passes:
  assumes "length (uv m) = length (vertex m)" and "length (normal m) = length (vertex m)"
  shows "check m = Inr ()"
  using assms by (simp add: check_def)

lemma uploads_never_throw:
  fixes t :: terrain
  assumes "fair_pool pool (length (view_cells idx f))"
  shows "(\<exists>t'. upload_geometry pool idx f t = Inr t') \<and> (\<exists>t'. upload_preview terr t = Inr t')"
  by (simp add: upload_geometry_eq [OF assms] upload_preview_eq)

section \<open>What the uploads leave behind\<close>

lemma staged_upload [simp]:
  "staged (vb @ [Clear, Bind, Upload]) = []"
  "staged (vb @ [Clear, Add_mesh m, Bind, Upload]) = [m]"
  "staged (vb @ [Clear, Bind, Upload, Bind, Draw_all]) = []"
  using staged_after_clear [of "[Bind, Upload]" vb]
    staged_after_clear [of "[Add_mesh m, Bind, Upload]" vb]
    staged_after_clear [of "[Bind, Upload, Bind, Draw_all]" vb]
  by simp_all

lemma compiled_Nil: "compiled [] = empty_mesh"
  by (simp add: compiled_def empty_mesh_def)

text \<open>
  C4. For given chunks the mesh \<open>upload_geometry\<close> compiles does not depend on the order in
  which the pool runs the cells, nor on what the terrain held before: any two fair pools,
  from any two states, leave the same cell buffer and the same parent mesh, and stage the
  same meshes in the view buffer. The mesh is \<open>compiled\<close> of the cells, in which the block
  of a cell is computed from that cell and its ordinal alone; and the assignments of the
  pass, made one by one in any order on the mesh as \<open>allocate_mesh_buffer\<close> sized it, give
  that same mesh.
\<close>

theorem upload_geometry_deterministic:
  fixes sa sb :: terrain
  assumes "fair_pool poola (length (view_cells idx f))"
    and "fair_pool poolb (length (view_cells idx f))"
    and "mset ws = mset (pass_writes (view_cells idx f))"
  shows "\<exists>ta tb. upload_geometry poola idx f sa = Inr ta \<and>
           upload_geometry poolb idx f sb = Inr tb \<and>
           parent ta = parent tb \<and> cell_buffer ta = cell_buffer tb \<and>
           staged (gb ta) = staged (gb tb) \<and>
           parent ta = compiled (view_cells idx f) \<and>
           fold apply_write ws
             (parent (allocate_mesh_buffer (sa\<lparr>cell_buffer := view_cells idx f\<rparr>))) = parent ta"
proof -
  have "set ws = set (pass_writes (view_cells idx f))"
    using assms(3) by (rule mset_eq_setD)
  then have "fold apply_write ws
      (parent (allocate_mesh_buffer (sa\<lparr>cell_buffer := view_cells idx f\<rparr>))) =
      compiled (view_cells idx f)"
    by (rule pass_any_order) simp_all
  then show ?thesis
    by (simp add: upload_geometry_eq [OF assms(1)] upload_geometry_eq [OF assms(2)])
qed

theorem upload_geometry_deterministic_witness:
  "fair_pool serial_pool (length (view_cells [0, 1, 2] cell_chunks)) \<and>
   fair_pool reverse_pool (length (view_cells [0, 1, 2] cell_chunks)) \<and>
   mset (rev (pass_writes (view_cells [0, 1, 2] cell_chunks))) =
     mset (pass_writes (view_cells [0, 1, 2] cell_chunks)) \<and>
   (\<exists>ta tb. upload_geometry serial_pool [0, 1, 2] cell_chunks terrain0 = Inr ta \<and>
      upload_geometry reverse_pool [0, 1, 2] cell_chunks used_terrain = Inr tb \<and>
      parent ta = parent tb \<and> cell_buffer ta = cell_buffer tb \<and>
      staged (gb ta) = staged (gb tb) \<and>
      parent ta = compiled (view_cells [0, 1, 2] cell_chunks) \<and>
      fold apply_write (rev (pass_writes (view_cells [0, 1, 2] cell_chunks)))
        (parent (allocate_mesh_buffer
          (terrain0\<lparr>cell_buffer := view_cells [0, 1, 2] cell_chunks\<rparr>))) = parent ta)"
proof -
  have n: "length (view_cells [0, 1, 2] cell_chunks) = 3"
    by (simp add: view_cells_def cell_chunks_def)
  have ha: "fair_pool serial_pool (length (view_cells [0, 1, 2] cell_chunks))"
    unfolding n by (simp add: fair_pool_def serial_pool_def)
  have hb: "fair_pool reverse_pool (length (view_cells [0, 1, 2] cell_chunks))"
    unfolding n by (simp add: fair_pool_def reverse_pool_def)
  have hc: "mset (rev (pass_writes (view_cells [0, 1, 2] cell_chunks))) =
      mset (pass_writes (view_cells [0, 1, 2] cell_chunks))"
    by simp
  from ha hb hc
    upload_geometry_deterministic [OF ha hb hc, where sa = terrain0 and sb = used_terrain]
  show ?thesis
    by (intro conjI)
qed

text \<open>
  C6, as the code has it. With no cell to compile both uploads leave the parent mesh and
  the cell buffer empty, add no mesh to the buffer of their target and throw nothing. They
  still clear and bind the buffer and call \<open>upload()\<close> on it, so that the target holds no
  mesh afterwards, and a draw that follows is issued on a buffer without meshes.
\<close>

theorem upload_empty:
  fixes t :: terrain
  assumes "fair_pool pool (length (view_cells idx f))"
    and "view_cells idx f = []" and "vertex terr = []"
  shows "(\<exists>t'. upload_geometry pool idx f t = Inr t' \<and>
            gb t' = gb t @ [Clear, Bind, Upload] \<and> pb t' = pb t \<and>
            parent t' = empty_mesh \<and> cell_buffer t' = [] \<and>
            staged (gb t') = [] \<and> staged (gb (draw_terrain t')) = []) \<and>
         (\<exists>t'. upload_preview terr t = Inr t' \<and>
            pb t' = pb t @ [Clear, Bind, Upload] \<and> gb t' = gb t \<and>
            parent t' = empty_mesh \<and> cell_buffer t' = [] \<and>
            staged (pb t') = [] \<and> staged (pb (draw_placemark t')) = [])"
proof -
  show ?thesis
    using assms(2,3)
    by (simp add: upload_geometry_eq [OF assms(1)] upload_preview_eq compiled_Nil
        draw_terrain_def draw_placemark_def draw_all_def bind_def)
qed

theorem upload_empty_witness:
  "fair_pool serial_pool (length (view_cells [] cell_chunks)) \<and>
   view_cells [] cell_chunks = [] \<and> vertex empty_mesh = [] \<and>
   (\<exists>t'. upload_geometry serial_pool [] cell_chunks used_terrain = Inr t' \<and>
      gb t' = gb used_terrain @ [Clear, Bind, Upload] \<and> pb t' = pb used_terrain \<and>
      parent t' = empty_mesh \<and> cell_buffer t' = [] \<and>
      staged (gb t') = [] \<and> staged (gb (draw_terrain t')) = []) \<and>
   (\<exists>t'. upload_preview empty_mesh used_terrain = Inr t' \<and>
      pb t' = pb used_terrain @ [Clear, Bind, Upload] \<and> gb t' = gb used_terrain \<and>
      parent t' = empty_mesh \<and> cell_buffer t' = [] \<and>
      staged (pb t') = [] \<and> staged (pb (draw_placemark t')) = [])"
proof -
  have h2: "view_cells [] cell_chunks = []"
    by (simp add: view_cells_def)
  have h3: "vertex empty_mesh = []"
    by (simp add: empty_mesh_def)
  have h1: "fair_pool serial_pool (length (view_cells [] cell_chunks))"
    unfolding h2 by (simp add: fair_pool_def serial_pool_def)
  from upload_empty [OF h1 h2 h3, of used_terrain] h1 h2 h3
  show ?thesis
    by (intro conjI) blast+
qed

text \<open>
  \<open>upload()\<close> is not skipped: on a fresh terrain, \<open>upload_geometry\<close> with an empty chunk
  list makes the calls \<open>clear\<close>, \<open>bind\<close> and \<open>upload\<close> on the view buffer.
\<close>

theorem upload_empty_counterexample:
  "upload_geometry serial_pool [] no_chunks terrain0 =
     Inr (terrain0\<lparr>gb := [Clear, Bind, Upload]\<rparr>) \<and>
   uploads (gb terrain0) = 0 \<and>
   uploads (gb (terrain0\<lparr>gb := [Clear, Bind, Upload]\<rparr>)) = 1"
  by (simp add: upload_geometry_eq [OF fair_serial_pool] view_cells_def compiled_Nil
      terrain0_def uploads_def)

text \<open>
  C9, as the code has it. The two targets have a vertex buffer each: \<open>upload_preview\<close>
  leaves the view buffer as it is, \<open>upload_geometry\<close> leaves the preview buffer as it is,
  and after either the buffer of its target holds the newly compiled mesh and nothing else
  (no mesh when there is no cell). Both compile into the one parent mesh.
\<close>

theorem targets_separate_buffers:
  fixes t :: terrain
  assumes "fair_pool pool (length (view_cells idx f))"
  shows "(\<exists>t'. upload_preview terr t = Inr t' \<and> gb t' = gb t \<and>
            staged (pb t') = (if vertex terr = [] then [] else [compiled (vertex terr)]) \<and>
            parent t' = compiled (vertex terr)) \<and>
         (\<exists>t'. upload_geometry pool idx f t = Inr t' \<and> pb t' = pb t \<and>
            staged (gb t') = (if view_cells idx f = [] then [] else [compiled (view_cells idx f)]) \<and>
            parent t' = compiled (view_cells idx f))"
  by (simp add: upload_geometry_eq [OF assms] upload_preview_eq)

theorem targets_separate_buffers_witness:
  "fair_pool reverse_pool (length (view_cells [0, 1] cell_chunks)) \<and>
   (\<exists>t'. upload_preview preview_mesh used_terrain = Inr t' \<and> gb t' = gb used_terrain \<and>
      staged (pb t') = [compiled two_cells] \<and> parent t' = compiled two_cells) \<and>
   (\<exists>t'. upload_geometry reverse_pool [0, 1] cell_chunks used_terrain = Inr t' \<and>
      pb t' = pb used_terrain \<and>
      staged (gb t') = [compiled [Vec4 0 0 0 0, Vec4 1 0 0 0]] \<and>
      parent t' = compiled [Vec4 0 0 0 0, Vec4 1 0 0 0])"
proof -
  have v: "vertex preview_mesh = two_cells" "two_cells \<noteq> []"
    by (simp_all add: preview_mesh_def two_cells_def)
  have c: "view_cells [0, 1] cell_chunks = [Vec4 0 0 0 0, Vec4 1 0 0 0]"
    by (simp add: view_cells_def cell_chunks_def)
  have h: "fair_pool reverse_pool (length (view_cells [0, 1] cell_chunks))"
    unfolding c by (simp add: fair_pool_def reverse_pool_def)
  from targets_separate_buffers [OF h, where terr = preview_mesh and t = used_terrain,
      unfolded c v(1)]
  have "(\<exists>t'. upload_preview preview_mesh used_terrain = Inr t' \<and> gb t' = gb used_terrain \<and>
      staged (pb t') = [compiled two_cells] \<and> parent t' = compiled two_cells) \<and>
   (\<exists>t'. upload_geometry reverse_pool [0, 1] cell_chunks used_terrain = Inr t' \<and>
      pb t' = pb used_terrain \<and>
      staged (gb t') = [compiled [Vec4 0 0 0 0, Vec4 1 0 0 0]] \<and>
      parent t' = compiled [Vec4 0 0 0 0, Vec4 1 0 0 0])"
    using v(2) by simp
  with h show ?thesis
    by blast
qed

text \<open>
  The compiled mesh is shared: after the view was compiled from one cell, a preview of two
  cells overwrites the parent mesh.
\<close>

theorem targets_separate_buffers_counterexample:
  "parent (projr (upload_geometry serial_pool [0] cell_chunks terrain0)) = compiled [Vec4 0 0 0 0] \<and>
   parent (projr (upload_preview preview_mesh
      (projr (upload_geometry serial_pool [0] cell_chunks terrain0)))) = compiled two_cells \<and>
   parent (projr (upload_preview preview_mesh
      (projr (upload_geometry serial_pool [0] cell_chunks terrain0)))) \<noteq>
   parent (projr (upload_geometry serial_pool [0] cell_chunks terrain0))"
proof -
  have "compiled two_cells \<noteq> compiled [Vec4 0 0 0 0]"
  proof
    assume e: "compiled two_cells = compiled [Vec4 0 0 0 0]"
    have "length (vertex (compiled two_cells)) = length (vertex (compiled [Vec4 0 0 0 0]))"
      by (simp only: e)
    then show False
      by (simp add: two_cells_def)
  qed
  then show ?thesis
    by (simp add: upload_geometry_eq [OF fair_serial_pool] upload_preview_eq view_cells_def
        cell_chunks_def preview_mesh_def empty_mesh_def)
qed

section \<open>The streaming trigger\<close>

lemma generate_terrain_eq:
  assumes "fair_pool pool (length (view_cells
      (get_view_chunks (grid w) (get_recent_chunk (grid w))) (get_chunk (grid w))))"
  shows "generate_terrain pool w =
           Inr (w\<lparr>view_chunks := get_view_chunks (grid w) (get_recent_chunk (grid w)),
                  the_terrain := projr (upload_geometry pool
                    (get_view_chunks (grid w) (get_recent_chunk (grid w))) (get_chunk (grid w))
                    (the_terrain w))\<rparr>)"
  by (simp add: generate_terrain_def Let_def upload_geometry_eq [OF assms])

text \<open>
  C7, as the code has it. \<open>update\<close> uploads the view once when \<open>chunk_key\<close> reports the
  position as valid and its key differs from the recent chunk: the recent chunk becomes
  that key first, the view chunks are those around it, and the parent mesh is compiled from
  their cells. Otherwise, also for a different key that is not valid, nothing changes.
\<close>

theorem update_streaming:
  assumes "fair_pool pool (length (view_cells
      (get_view_chunks (grid w) (fst (chunk_key (grid w) p))) (get_chunk (grid w))))"
  shows "\<exists>w'. update pool p w = Inr w' \<and>
           (if snd (chunk_key (grid w) p) \<and> get_recent_chunk (grid w) \<noteq> fst (chunk_key (grid w) p)
            then uploads (gb (the_terrain w')) = uploads (gb (the_terrain w)) + 1 \<and>
                 get_recent_chunk (grid w') = fst (chunk_key (grid w) p) \<and>
                 view_chunks w' = get_view_chunks (grid w) (fst (chunk_key (grid w) p)) \<and>
                 parent (the_terrain w') =
                   compiled (view_cells (view_chunks w') (get_chunk (grid w)))
            else w' = w)"
proof (cases "snd (chunk_key (grid w) p) \<and> get_recent_chunk (grid w) \<noteq> fst (chunk_key (grid w) p)")
  case True
  let ?w1 = "w\<lparr>grid := update_chunk (fst (chunk_key (grid w) p)) (grid w)\<rparr>"
  have fair: "fair_pool pool (length (view_cells
      (get_view_chunks (grid ?w1) (get_recent_chunk (grid ?w1))) (get_chunk (grid ?w1))))"
    using assms by (simp add: update_chunk_def)
  have "update pool p w = generate_terrain pool ?w1"
    using True by (simp add: update_def Let_def split_beta)
  also note generate_terrain_eq [OF fair]
  finally show ?thesis
    using True by (simp add: upload_geometry_eq [OF assms] update_chunk_def uploads_def)
next
  case False
  then have "update pool p w = Inr w"
    by (auto simp add: update_def Let_def split_beta)
  with False show ?thesis
    by simp
qed

theorem update_streaming_witness:
  "fair_pool serial_pool (length (view_cells [2, 3] cell_chunks)) \<and>
   fair_pool serial_pool (length (view_cells [0, 1] cell_chunks)) \<and>
   snd (chunk_key (grid (world_of inside_grid)) (Vec3 17 2 3)) \<and>
   get_recent_chunk (grid (world_of inside_grid)) \<noteq>
     fst (chunk_key (grid (world_of inside_grid)) (Vec3 17 2 3)) \<and>
   (\<exists>w'. update serial_pool (Vec3 17 2 3) (world_of inside_grid) = Inr w' \<and>
      uploads (gb (the_terrain w')) = 1 \<and> get_recent_chunk (grid w') = 2 \<and>
      view_chunks w' = [2, 3]) \<and>
   (\<exists>w'. update serial_pool (Vec3 5 2 3) (world_of inside_grid) = Inr w' \<and>
      w' = world_of inside_grid)"
proof -
  have k: "chunk_key (grid (world_of inside_grid)) (Vec3 17 2 3) = (2, True)"
    "chunk_key (grid (world_of inside_grid)) (Vec3 5 2 3) = (0, True)"
    "get_recent_chunk (grid (world_of inside_grid)) = 0"
    "get_view_chunks (grid (world_of inside_grid)) 2 = [2, 3]"
    "get_view_chunks (grid (world_of inside_grid)) 0 = [0, 1]"
    "get_chunk (grid (world_of inside_grid)) = cell_chunks"
    "uploads (gb (the_terrain (world_of inside_grid))) = 0"
    by (simp_all add: world_of_def inside_grid_def terrain0_def uploads_def)
  have n: "length (view_cells [2, 3] cell_chunks) = 2" "length (view_cells [0, 1] cell_chunks) = 2"
    by (simp_all add: view_cells_def cell_chunks_def)
  have fa: "fair_pool serial_pool (length (view_cells [2, 3] cell_chunks))"
    and fb: "fair_pool serial_pool (length (view_cells [0, 1] cell_chunks))"
    unfolding n by (simp_all add: fair_pool_def serial_pool_def)
  have fa': "fair_pool serial_pool (length (view_cells
      (get_view_chunks (grid (world_of inside_grid))
        (fst (chunk_key (grid (world_of inside_grid)) (Vec3 17 2 3))))
      (get_chunk (grid (world_of inside_grid)))))"
    using fa by (simp add: k)
  have fb': "fair_pool serial_pool (length (view_cells
      (get_view_chunks (grid (world_of inside_grid))
        (fst (chunk_key (grid (world_of inside_grid)) (Vec3 5 2 3))))
      (get_chunk (grid (world_of inside_grid)))))"
    using fb by (simp add: k)
  from update_streaming [OF fa']
  have a: "\<exists>w'. update serial_pool (Vec3 17 2 3) (world_of inside_grid) = Inr w' \<and>
      uploads (gb (the_terrain w')) = 1 \<and> get_recent_chunk (grid w') = 2 \<and>
      view_chunks w' = [2, 3]"
    by (auto simp add: k)
  from update_streaming [OF fb']
  have b: "\<exists>w'. update serial_pool (Vec3 5 2 3) (world_of inside_grid) = Inr w' \<and>
      w' = world_of inside_grid"
    by (auto simp add: k)
  from fa fb a b show ?thesis
    unfolding k by simp
qed

text \<open>
  A key that differs from the recent chunk does not trigger an upload when \<open>chunk_key\<close>
  clears \<open>is_valid\<close>.
\<close>

theorem update_streaming_counterexample:
  "get_recent_chunk (grid (world_of outside_grid)) \<noteq>
     fst (chunk_key (grid (world_of outside_grid)) (Vec3 0 0 0)) \<and>
   update serial_pool (Vec3 0 0 0) (world_of outside_grid) = Inr (world_of outside_grid) \<and>
   uploads (gb (the_terrain (world_of outside_grid))) = 0"
  by (simp add: update_def world_of_def outside_grid_def terrain0_def uploads_def)

end
